theory Spec2Isabelle
  imports Complex_Main
begin

section \<open>Values, exceptions and the world\<close>

text \<open>
  The program is \<^verbatim>\<open>any_potd.py\<close>. Strings are lists of characters with code points
  below 256. Values decoded from a JSON body are Python objects: \<^verbatim>\<open>None\<close>, booleans,
  integers, floats, strings, lists and dictionaries with string keys (an association
  list, looked up from the front).
\<close>

datatype pyfloat = Finite rat | PosInf | NegInf | NaN

datatype pyval =
    PNone
  | PBool bool
  | PInt int
  | PFloat pyfloat
  | PStr string
  | PList "pyval list"
  | PDict "(string \<times> pyval) list"

text \<open>
  Exceptions. \<open>RequestException\<close>, \<open>HTTPError\<close> (raised by
  \<^verbatim>\<open>raise_for_status\<close>) and \<open>JSONDecodeError\<close> (raised by \<^verbatim>\<open>response.json()\<close>,
  \<^verbatim>\<open>requests\<close> 2.27 and later) belong to the class \<^verbatim>\<open>requests.RequestException\<close>;
  \<open>PyException\<close> is a plain \<^verbatim>\<open>raise Exception(msg)\<close> of the source;
  \<open>KeyboardInterrupt\<close> and \<open>SystemExit\<close> are outside the class \<^verbatim>\<open>Exception\<close>.
\<close>

datatype exc =
    RequestException string
  | HTTPError string
  | JSONDecodeError
  | PyException string
  | KeyError
  | IndexError
  | TypeError
  | AttributeError
  | ValueError
  | OSError
  | KeyboardInterrupt
  | SystemExit nat

fun is_RequestException :: "exc \<Rightarrow> bool" where
  "is_RequestException (RequestException m) = True"
| "is_RequestException (HTTPError m) = True"
| "is_RequestException JSONDecodeError = True"
| "is_RequestException e = False"

fun is_Exception :: "exc \<Rightarrow> bool" where
  "is_Exception KeyboardInterrupt = False"
| "is_Exception (SystemExit c) = False"
| "is_Exception e = True"

record request =
  req_url :: pyval
  req_timeout :: int
  req_allow_redirects :: bool
  req_headers :: "(string \<times> string) list option"
  req_params :: "(string \<times> string) list option"

record response =
  status_code :: nat
  reason :: string
  final_url :: string
  resp_headers :: "(string \<times> string) list"
  content :: string
  json_body :: "pyval option"

datatype outcome = Returns response | Raises exc

datatype fs_op = Mkdir string | WriteFile string

text \<open>
  What the program cannot decide is read from the environment: the outcome of the
  \<open>k\<close>-th GET of the run (\<open>net\<close>), the outcome of a file-system operation (\<open>fs\<close>),
  the calendar date (\<open>today\<close>), the interpreter's rendering of floats, lists and
  dictionaries (\<open>py_repr\<close>) and of the messages of built-in exceptions
  (\<open>builtin_msg\<close>), and \<^verbatim>\<open>urllib\<close>'s validation of a bracketed host
  (\<open>bracketed_host_ok\<close>).
\<close>

record env =
  net :: "nat \<Rightarrow> request \<Rightarrow> outcome"
  fs :: "fs_op \<Rightarrow> exc option"
  today :: "nat \<times> nat \<times> nat"
  py_repr :: "pyval \<Rightarrow> string"
  builtin_msg :: "exc \<Rightarrow> string"
  bracketed_host_ok :: "string \<Rightarrow> bool"

text \<open>
  The world holds the global \<^verbatim>\<open>VERBOSE\<close> flag and the trace of every effect, in
  order: GET requests issued, seconds slept, lines printed on either stream,
  directories created, files written, and the calls of \<^verbatim>\<open>download_and_save\<close>.
\<close>

record world =
  VERBOSE :: bool
  requests :: "request list"
  sleeps :: "nat list"
  stdout :: "string list"
  stderr :: "string list"
  mkdirs :: "string list"
  writes :: "(string \<times> string) list"
  saves :: "(pyval \<times> string \<times> (string \<times> string) list option) list"

type_synonym 'a result = "(exc + 'a) \<times> world"

section \<open>Formatting\<close>

fun str_nat :: "nat \<Rightarrow> string" where
  "str_nat n = (if n < 10 then [char_of (48 + n)] else str_nat (n div 10) @ [char_of (48 + n mod 10)])"

declare str_nat.simps [simp del]

definition str_int :: "int \<Rightarrow> string" where
  "str_int i = (if i < 0 then CHR ''-'' # str_nat (nat (- i)) else str_nat (nat i))"

text \<open>\<^verbatim>\<open>str(v)\<close>, as an f-string applies it to a value.\<close>

definition py_str :: "env \<Rightarrow> pyval \<Rightarrow> string" where
  "py_str env v =
     (case v of
        PStr s \<Rightarrow> s
      | PNone \<Rightarrow> ''None''
      | PBool b \<Rightarrow> (if b then ''True'' else ''False'')
      | PInt i \<Rightarrow> str_int i
      | _ \<Rightarrow> py_repr env v)"

text \<open>\<^verbatim>\<open>str(e)\<close> of an exception.\<close>

definition exc_str :: "env \<Rightarrow> exc \<Rightarrow> string" where
  "exc_str env e =
     (case e of
        RequestException m \<Rightarrow> m
      | HTTPError m \<Rightarrow> m
      | PyException m \<Rightarrow> m
      | _ \<Rightarrow> builtin_msg env e)"

section \<open>Logging and sleeping\<close>

definition print :: "string \<Rightarrow> world \<Rightarrow> world" where
  "print line w = w\<lparr>stdout := stdout w @ [line]\<rparr>"

definition print_err :: "string \<Rightarrow> world \<Rightarrow> world" where
  "print_err line w = w\<lparr>stderr := stderr w @ [line]\<rparr>"

definition log_verbose :: "string \<Rightarrow> world \<Rightarrow> world" where
  "log_verbose message w = (if VERBOSE w then print (''[INFO] '' @ message) w else w)"

definition sleep :: "nat \<Rightarrow> world \<Rightarrow> world" where
  "sleep secs w = w\<lparr>sleeps := sleeps w @ [secs]\<rparr>"

section \<open>HTTP GET with retries\<close>

text \<open>
  \<^verbatim>\<open>requests.get(...)\<close> followed by \<^verbatim>\<open>response.raise_for_status()\<close>: the request is
  recorded, the environment answers, and a status from 400 to 599 raises
  \<open>HTTPError\<close>.
\<close>

definition raise_for_status :: "response \<Rightarrow> exc + response" where
  "raise_for_status r =
     (if 400 \<le> status_code r \<and> status_code r < 500 then
        Inl (HTTPError (str_nat (status_code r) @ '' Client Error: '' @ reason r
                          @ '' for url: '' @ final_url r))
      else if 500 \<le> status_code r \<and> status_code r < 600 then
        Inl (HTTPError (str_nat (status_code r) @ '' Server Error: '' @ reason r
                          @ '' for url: '' @ final_url r))
      else Inr r)"

definition get_outcome :: "env \<Rightarrow> nat \<Rightarrow> request \<Rightarrow> exc + response" where
  "get_outcome env k rq =
     (case net env k rq of Raises e \<Rightarrow> Inl e | Returns r \<Rightarrow> raise_for_status r)"

definition http_get :: "env \<Rightarrow> request \<Rightarrow> world \<Rightarrow> response result" where
  "http_get env rq w =
     (get_outcome env (length (requests w)) rq, w\<lparr>requests := requests w @ [rq]\<rparr>)"

text \<open>How a \<^verbatim>\<open>for\<close> loop ends: by \<^verbatim>\<open>return\<close>, by an exception, or by running out.\<close>

datatype 'a loop_result = Returned 'a | Raised exc | Exhausted

definition py_range :: "int \<Rightarrow> nat list" where
  "py_range n = [0..<nat n]"

text \<open>The body of the loop of \<^verbatim>\<open>retry_request\<close>, over the attempts still to make.\<close>

fun retry_attempts ::
  "env \<Rightarrow> request \<Rightarrow> int \<Rightarrow> nat list \<Rightarrow> world \<Rightarrow> response loop_result \<times> world" where
  "retry_attempts env rq max_retries [] w = (Exhausted, w)"
| "retry_attempts env rq max_retries (attempt # rest) w =
     (let w1 = log_verbose (''Fetching '' @ py_str env (req_url rq) @ '' (attempt ''
                  @ str_nat (attempt + 1) @ ''/'' @ str_int max_retries @ '')'') w
      in case http_get env rq w1 of
           (Inr resp, w2) \<Rightarrow> (Returned resp, w2)
         | (Inl e, w2) \<Rightarrow>
             if is_RequestException e then
               (if int attempt = max_retries - 1 then (Raised e, w2)
                else retry_attempts env rq max_retries rest
                       (sleep (2 ^ attempt)
                          (log_verbose (''Request failed: '' @ exc_str env e @ ''. Retrying...'') w2)))
             else (Raised e, w2))"

definition retry_request ::
  "env \<Rightarrow> pyval \<Rightarrow> int \<Rightarrow> int \<Rightarrow> (string \<times> string) list option
     \<Rightarrow> (string \<times> string) list option \<Rightarrow> world \<Rightarrow> response result" where
  "retry_request env url max_retries timeout headers params w =
     (let rq = \<lparr>req_url = url, req_timeout = timeout, req_allow_redirects = True,
                req_headers = headers, req_params = params\<rparr>
      in case retry_attempts env rq max_retries (py_range max_retries) w of
           (Returned resp, w') \<Rightarrow> (Inr resp, w')
         | (Raised e, w') \<Rightarrow> (Inl e, w')
         | (Exhausted, w') \<Rightarrow> (Inl (RequestException ''Max retries exceeded''), w'))"

section \<open>Strings\<close>

text \<open>
  \<^verbatim>\<open>str.lower()\<close> on code points below 256: the ASCII capitals and the Latin-1
  capitals (192 to 222, without the multiplication sign 215) move up by 32.
\<close>

definition lower_char :: "char \<Rightarrow> char" where
  "lower_char c =
     (let n = (of_char c :: nat) in
      if (65 \<le> n \<and> n \<le> 90) \<or> (192 \<le> n \<and> n \<le> 222 \<and> n \<noteq> 215) then char_of (n + 32) else c)"

definition py_lower :: "string \<Rightarrow> string" where
  "py_lower s = map lower_char s"

text \<open>\<^verbatim>\<open>needle in hay\<close> on strings.\<close>

fun is_substring :: "string \<Rightarrow> string \<Rightarrow> bool" where
  "is_substring needle [] = (needle = [])"
| "is_substring needle (c # cs) =
     (take (length needle) (c # cs) = needle \<or> is_substring needle cs)"

text \<open>\<^verbatim>\<open>s.find(c, start)\<close> and \<^verbatim>\<open>s.rfind(c)\<close>: an index, or -1.\<close>

fun find_from :: "char \<Rightarrow> string \<Rightarrow> nat \<Rightarrow> int" where
  "find_from c [] k = - 1"
| "find_from c (x # xs) k = (if x = c then int k else find_from c xs (Suc k))"

definition py_find :: "char \<Rightarrow> string \<Rightarrow> int" where
  "py_find c s = find_from c s 0"

definition py_find_start :: "char \<Rightarrow> string \<Rightarrow> nat \<Rightarrow> int" where
  "py_find_start c s start = find_from c (drop start s) start"

definition py_rfind :: "char \<Rightarrow> string \<Rightarrow> int" where
  "py_rfind c s =
     (if c \<in> set s then int (length s) - 1 - int (length (takeWhile (\<lambda>x. x \<noteq> c) (rev s)))
      else - 1)"

text \<open>\<^verbatim>\<open>s.split(sep)\<close> and \<^verbatim>\<open>sep.join(parts)\<close> for a one-character separator.\<close>

fun split_on :: "char \<Rightarrow> string \<Rightarrow> string list" where
  "split_on sep [] = [[]]"
| "split_on sep (c # cs) =
     (if c = sep then [] # split_on sep cs
      else (case split_on sep cs of
              [] \<Rightarrow> [[c]]
            | p # ps \<Rightarrow> (c # p) # ps))"

fun join_with :: "char \<Rightarrow> string list \<Rightarrow> string" where
  "join_with sep [] = []"
| "join_with sep [p] = p"
| "join_with sep (p # q # ps) = p @ sep # join_with sep (q # ps)"

section \<open>URL parsing and file extensions (CPython 3.11 library)\<close>

definition scheme_chars :: string where
  "scheme_chars = ''abcdefghijklmnopqrstuvwxyzABCDEFGHIJKLMNOPQRSTUVWXYZ0123456789+-.''"

definition uses_params :: "string list" where
  "uses_params = ['''', ''ftp'', ''hdl'', ''prospero'', ''http'', ''imap'', ''https'', ''shttp'',
                  ''rtsp'', ''rtsps'', ''rtspu'', ''sip'', ''sips'', ''mms'', ''sftp'', ''tel'']"

definition is_ascii_alpha :: "char \<Rightarrow> bool" where
  "is_ascii_alpha c =
     (let n = (of_char c :: nat) in (65 \<le> n \<and> n \<le> 90) \<or> (97 \<le> n \<and> n \<le> 122))"

text \<open>
  \<^verbatim>\<open>_splitnetloc(url, 2)\<close>: the network location runs from index 2 to the first of
  the characters \<^verbatim>\<open>/ ? #\<close>.
\<close>

definition splitnetloc :: "string \<Rightarrow> string \<times> string" where
  "splitnetloc url =
     (let delim = fold (\<lambda>c d. let wdelim = py_find_start c url 2 in
                                if wdelim \<ge> 0 then min d (nat wdelim) else d)
                       ''/?#'' (length url)
      in (drop 2 (take delim url), drop delim url))"

text \<open>
  \<^verbatim>\<open>urlsplit(url)\<close>, giving scheme, network location and path (query and fragment
  are cut off and dropped). It raises \<open>ValueError\<close> on a network location with an
  unmatched bracket or with a bracketed host the library rejects. The check of
  \<^verbatim>\<open>_checknetloc\<close> never raises on code points below 256 and is left out.
\<close>

definition urlsplit :: "env \<Rightarrow> string \<Rightarrow> exc + (string \<times> string \<times> string)" where
  "urlsplit env url0 =
     (let url1 = dropWhile (\<lambda>c. (of_char c :: nat) \<le> 32) url0;
          url2 = filter (\<lambda>c. c \<noteq> CHR 0x09 \<and> c \<noteq> CHR 0x0D \<and> c \<noteq> CHR 0x0A) url1;
          i = py_find CHR '':'' url2;
          (scheme, url3) =
            (if i > 0 \<and> is_ascii_alpha (hd url2)
                \<and> list_all (\<lambda>c. c \<in> set scheme_chars) (take (nat i) url2)
             then (py_lower (take (nat i) url2), drop (nat i + 1) url2)
             else ('''', url2))
      in case (if take 2 url3 = ''//'' then
                 (let (netloc, rest) = splitnetloc url3 in
                  if (CHR ''['' \<in> set netloc \<and> CHR '']'' \<notin> set netloc)
                     \<or> (CHR '']'' \<in> set netloc \<and> CHR ''['' \<notin> set netloc)
                  then Inl ValueError
                  else if CHR ''['' \<in> set netloc \<and> CHR '']'' \<in> set netloc
                          \<and> \<not> bracketed_host_ok env
                                (takeWhile (\<lambda>c. c \<noteq> CHR '']'')
                                   (drop 1 (dropWhile (\<lambda>c. c \<noteq> CHR ''['') netloc)))
                  then Inl ValueError
                  else Inr (netloc, rest))
               else Inr ('''', url3)) of
           Inl e \<Rightarrow> Inl e
         | Inr (netloc, url4) \<Rightarrow>
             (let url5 = takeWhile (\<lambda>c. c \<noteq> CHR ''#'') url4;
                  url6 = takeWhile (\<lambda>c. c \<noteq> CHR ''?'') url5
              in Inr (scheme, netloc, url6)))"

text \<open>\<^verbatim>\<open>_splitparams(url)[0]\<close>: the path without the parameters of its last segment.\<close>

definition splitparams :: "string \<Rightarrow> string" where
  "splitparams url =
     (if CHR ''/'' \<in> set url then
        (let i = py_find_start CHR '';'' url (nat (py_rfind CHR ''/'' url)) in
         if i < 0 then url else take (nat i) url)
      else take (nat (py_find CHR '';'' url)) url)"

text \<open>\<^verbatim>\<open>urlparse(url).path\<close>.\<close>

definition urlparse_path :: "env \<Rightarrow> string \<Rightarrow> exc + string" where
  "urlparse_path env url =
     (case urlsplit env url of
        Inl e \<Rightarrow> Inl e
      | Inr (scheme, netloc, path) \<Rightarrow>
          if scheme \<in> set uses_params \<and> CHR '';'' \<in> set path then Inr (splitparams path)
          else Inr path)"

text \<open>
  \<^verbatim>\<open>os.path.splitext(p)[1]\<close>: the text from the last dot of the last component, unless
  only dots precede it there.
\<close>

definition splitext_ext :: "string \<Rightarrow> string" where
  "splitext_ext p =
     (let sepIndex = py_rfind CHR ''/'' p;
          dotIndex = py_rfind CHR ''.'' p
      in if dotIndex > sepIndex
            \<and> list_ex (\<lambda>k. p ! k \<noteq> CHR ''.'') [nat (sepIndex + 1)..<nat dotIndex]
         then drop (nat dotIndex) p
         else '''')"

definition image_suffixes :: "string list" where
  "image_suffixes = [''.jpg'', ''.jpeg'', ''.png'', ''.gif'', ''.webp'']"

definition detect_extension :: "env \<Rightarrow> string \<Rightarrow> string option \<Rightarrow> exc + string" where
  "detect_extension env url content_type =
     (case urlparse_path env url of
        Inl e \<Rightarrow> Inl e
      | Inr path \<Rightarrow>
          if CHR ''.'' \<in> set path \<and> py_lower (splitext_ext path) \<in> set image_suffixes
          then Inr (py_lower (splitext_ext path))
          else (case content_type of
                  None \<Rightarrow> Inr ''.jpg''
                | Some ct0 \<Rightarrow>
                    if ct0 = '''' then Inr ''.jpg''
                    else (let ct = py_lower ct0 in
                          if is_substring ''jpeg'' ct \<or> is_substring ''jpg'' ct then Inr ''.jpg''
                          else if is_substring ''png'' ct then Inr ''.png''
                          else if is_substring ''gif'' ct then Inr ''.gif''
                          else if is_substring ''webp'' ct then Inr ''.webp''
                          else Inr ''.jpg'')))"

section \<open>Paths (\<^verbatim>\<open>pathlib\<close> on POSIX, CPython 3.11)\<close>

record ppath =
  p_root :: string
  p_names :: "string list"

definition Path :: "string \<Rightarrow> ppath" where
  "Path s =
     (let stripped = dropWhile (\<lambda>c. c = CHR ''/'') s;
          root = (if s \<noteq> [] \<and> hd s = CHR ''/'' then
                    (if length s - length stripped = 2 then ''//'' else ''/'')
                  else '''')
      in \<lparr>p_root = root,
          p_names = filter (\<lambda>x. x \<noteq> '''' \<and> x \<noteq> ''.'') (split_on CHR ''/'' stripped)\<rparr>)"

definition path_str :: "ppath \<Rightarrow> string" where
  "path_str p =
     (let s = p_root p @ join_with CHR ''/'' (p_names p) in if s = '''' then ''.'' else s)"

definition path_name :: "ppath \<Rightarrow> string" where
  "path_name p = (if p_names p = [] then '''' else last (p_names p))"

definition path_suffix :: "ppath \<Rightarrow> string" where
  "path_suffix p =
     (let name = path_name p; i = py_rfind CHR ''.'' name
      in if 0 < i \<and> i < int (length name) - 1 then drop (nat i) name else '''')"

definition with_suffix :: "ppath \<Rightarrow> string \<Rightarrow> exc + ppath" where
  "with_suffix p suffix =
     (if CHR ''/'' \<in> set suffix then Inl ValueError
      else if (suffix \<noteq> '''' \<and> take 1 suffix \<noteq> ''.'') \<or> suffix = ''.'' then Inl ValueError
      else (let name = path_name p in
            if name = '''' then Inl ValueError
            else (let old_suffix = path_suffix p;
                      name' = (if old_suffix = '''' then name @ suffix
                               else take (length name - length old_suffix) name @ suffix)
                  in Inr (p\<lparr>p_names := butlast (p_names p) @ [name']\<rparr>))))"

definition path_parent :: "ppath \<Rightarrow> ppath" where
  "path_parent p = (if p_names p = [] then p else p\<lparr>p_names := butlast (p_names p)\<rparr>)"

section \<open>Saving an image\<close>

text \<open>
  \<^verbatim>\<open>response.headers.get(name, default)\<close>: the header names compare without regard
  to case.
\<close>

definition header_get :: "(string \<times> string) list \<Rightarrow> string \<Rightarrow> string \<Rightarrow> string" where
  "header_get hs name dflt =
     (case find (\<lambda>(k, v). py_lower k = py_lower name) hs of
        None \<Rightarrow> dflt
      | Some (k, v) \<Rightarrow> v)"

fun py_truthy :: "pyval \<Rightarrow> bool" where
  "py_truthy PNone = False"
| "py_truthy (PBool b) = b"
| "py_truthy (PInt i) = (i \<noteq> 0)"
| "py_truthy (PFloat f) = (f \<noteq> Finite 0)"
| "py_truthy (PStr s) = (s \<noteq> [])"
| "py_truthy (PList xs) = (xs \<noteq> [])"
| "py_truthy (PDict kvs) = (kvs \<noteq> [])"

text \<open>
  \<^verbatim>\<open>download_and_save(url, target_path, headers)\<close>. The call is recorded first. A
  \<open>url\<close> that is not a string is rejected by \<^verbatim>\<open>urlparse\<close> (\<open>AttributeError\<close> for a
  truthy value, \<open>TypeError\<close> at the test \<^verbatim>\<open>'.' in path\<close> otherwise). The function has
  no \<^verbatim>\<open>return\<close> statement: on success its value is \<^verbatim>\<open>None\<close>.
\<close>

definition download_and_save ::
  "env \<Rightarrow> pyval \<Rightarrow> string \<Rightarrow> (string \<times> string) list option \<Rightarrow> world \<Rightarrow> pyval result" where
  "download_and_save env url target_path headers w =
     (let w0 = w\<lparr>saves := saves w @ [(url, target_path, headers)]\<rparr>;
          w1 = log_verbose (''Downloading image from '' @ py_str env url) w0
      in case retry_request env url 3 30 headers None w1 of
           (Inl e, w2) \<Rightarrow> (Inl e, w2)
         | (Inr resp, w2) \<Rightarrow>
             (let target = Path target_path in
              case (if path_suffix target = ''''
                       \<or> py_lower (path_suffix target) \<notin> set image_suffixes
                    then
                      (let content_type = header_get (resp_headers resp) ''Content-Type'' '''' in
                       case (case url of
                               PStr s \<Rightarrow> detect_extension env s (Some content_type)
                             | _ \<Rightarrow> Inl (if py_truthy url then AttributeError else TypeError)) of
                         Inl e \<Rightarrow> Inl e
                       | Inr ext \<Rightarrow>
                           (case with_suffix target ext of
                              Inl e \<Rightarrow> Inl e
                            | Inr target' \<Rightarrow>
                                Inr (target', log_verbose (''Auto-detected extension: '' @ ext) w2)))
                    else Inr (target, w2)) of
                Inl e \<Rightarrow> (Inl e, w2)
              | Inr (target, w3) \<Rightarrow>
                  (case fs env (Mkdir (path_str (path_parent target))) of
                     Some e \<Rightarrow> (Inl e, w3)
                   | None \<Rightarrow>
                       (let w4 = w3\<lparr>mkdirs := mkdirs w3 @ [path_str (path_parent target)]\<rparr>;
                            w5 = log_verbose (''Saving image to '' @ path_str target) w4
                        in case fs env (WriteFile (path_str target)) of
                             Some e \<Rightarrow> (Inl e, w5)
                           | None \<Rightarrow>
                               (Inr PNone,
                                print (''Successfully downloaded to: '' @ path_str target)
                                  (w5\<lparr>writes := writes w5 @ [(path_str target, content resp)]\<rparr>))))))"

section \<open>Python operations on decoded JSON\<close>

text \<open>\<^verbatim>\<open>response.json()\<close>.\<close>

definition response_json :: "response \<Rightarrow> exc + pyval" where
  "response_json resp = (case json_body resp of None \<Rightarrow> Inl JSONDecodeError | Some v \<Rightarrow> Inr v)"

text \<open>\<^verbatim>\<open>v.get(key, default)\<close>: only a dictionary has the method.\<close>

definition py_get :: "pyval \<Rightarrow> string \<Rightarrow> pyval \<Rightarrow> exc + pyval" where
  "py_get v key dflt =
     (case v of
        PDict kvs \<Rightarrow> Inr (case map_of kvs key of None \<Rightarrow> dflt | Some x \<Rightarrow> x)
      | _ \<Rightarrow> Inl AttributeError)"

text \<open>\<^verbatim>\<open>v[key]\<close> with a string key.\<close>

definition py_item :: "pyval \<Rightarrow> string \<Rightarrow> exc + pyval" where
  "py_item v key =
     (case v of
        PDict kvs \<Rightarrow> (case map_of kvs key of None \<Rightarrow> Inl KeyError | Some x \<Rightarrow> Inr x)
      | _ \<Rightarrow> Inl TypeError)"

text \<open>\<^verbatim>\<open>v[0]\<close>. The keys of a decoded dictionary are strings, so \<^verbatim>\<open>0\<close> is never one.\<close>

definition py_first :: "pyval \<Rightarrow> exc + pyval" where
  "py_first v =
     (case v of
        PList xs \<Rightarrow> (case xs of [] \<Rightarrow> Inl IndexError | x # _ \<Rightarrow> Inr x)
      | PStr s \<Rightarrow> (case s of [] \<Rightarrow> Inl IndexError | c # _ \<Rightarrow> Inr (PStr [c]))
      | PDict kvs \<Rightarrow> Inl KeyError
      | _ \<Rightarrow> Inl TypeError)"

text \<open>\<^verbatim>\<open>len(v)\<close> and \<^verbatim>\<open>v[:100]\<close>.\<close>

definition py_len :: "pyval \<Rightarrow> exc + nat" where
  "py_len v =
     (case v of
        PStr s \<Rightarrow> Inr (length s)
      | PList xs \<Rightarrow> Inr (length xs)
      | PDict kvs \<Rightarrow> Inr (length kvs)
      | _ \<Rightarrow> Inl TypeError)"

definition py_slice100 :: "pyval \<Rightarrow> exc + pyval" where
  "py_slice100 v =
     (case v of
        PStr s \<Rightarrow> Inr (PStr (take 100 s))
      | PList xs \<Rightarrow> Inr (PList (take 100 xs))
      | _ \<Rightarrow> Inl TypeError)"

text \<open>\<^verbatim>\<open>a or b\<close>, where evaluating \<open>b\<close> may raise.\<close>

definition py_or :: "pyval \<Rightarrow> exc + pyval \<Rightarrow> exc + pyval" where
  "py_or a b = (if py_truthy a then Inr a else b)"

text \<open>Sequencing of a step that may raise, with the world as it stands.\<close>

definition bind_exc ::
  "exc + 'a \<Rightarrow> world \<Rightarrow> ('a \<Rightarrow> 'b result) \<Rightarrow> 'b result" where
  "bind_exc r w k = (case r of Inl e \<Rightarrow> (Inl e, w) | Inr x \<Rightarrow> k x)"

definition bind_io ::
  "'a result \<Rightarrow> ('a \<Rightarrow> world \<Rightarrow> 'b result) \<Rightarrow> 'b result" where
  "bind_io r k = (case r of (Inl e, w) \<Rightarrow> (Inl e, w) | (Inr x, w) \<Rightarrow> k x w)"

section \<open>Provider adapters\<close>

definition download_bing :: "env \<Rightarrow> string \<Rightarrow> world \<Rightarrow> pyval result" where
  "download_bing env target w =
     (let w1 = log_verbose ''Fetching Bing Photo of the Day'' w;
          url = ''https://www.bing.com/HPImageArchive.aspx?format=js&idx=0&n=1&mkt=en-US''
      in bind_io (retry_request env (PStr url) 3 30 None None w1) (\<lambda>resp w2.
         bind_exc (response_json resp) w2 (\<lambda>data.
         bind_exc (py_get data ''images'' PNone) w2 (\<lambda>images.
         if \<not> py_truthy images then (Inl (PyException ''No images found in Bing response''), w2)
         else
         bind_exc (py_item data ''images'') w2 (\<lambda>imgs.
         bind_exc (py_first imgs) w2 (\<lambda>img0.
         bind_exc (py_item img0 ''urlbase'') w2 (\<lambda>urlbase.
         let img_url = ''https://www.bing.com'' @ py_str env urlbase @ ''_1920x1080.jpg'' in
         bind_exc (py_get img0 ''title'' (PStr ''Unknown'')) w2 (\<lambda>title.
         bind_exc (py_get img0 ''copyright'' (PStr ''Unknown'')) w2 (\<lambda>copyright_text.
         let w3 = log_verbose (''Photo: '' @ py_str env title) w2;
             w4 = log_verbose (''Copyright: '' @ py_str env copyright_text) w3
         in download_and_save env (PStr img_url) target None w4)))))))))"

definition download_nasa :: "env \<Rightarrow> string \<Rightarrow> string \<Rightarrow> world \<Rightarrow> pyval result" where
  "download_nasa env target api_key w =
     (let w1 = log_verbose ''Fetching NASA APOD'' w;
          url = ''https://api.nasa.gov/planetary/apod?api_key='' @ api_key
      in bind_io (retry_request env (PStr url) 3 30 None None w1) (\<lambda>resp w2.
         bind_exc (response_json resp) w2 (\<lambda>data.
         bind_exc (py_get data ''media_type'' PNone) w2 (\<lambda>media_type.
         if media_type \<noteq> PStr ''image'' then
           (Inl (PyException (''Today's APOD is not an image, it's a '' @ py_str env media_type)), w2)
         else
         bind_exc (py_get data ''hdurl'' PNone) w2 (\<lambda>hdurl.
         bind_exc (py_or hdurl (py_get data ''url'' PNone)) w2 (\<lambda>img_url.
         if \<not> py_truthy img_url then
           (Inl (PyException ''No image URL found in NASA APOD response''), w2)
         else
         bind_exc (py_get data ''title'' (PStr ''Unknown'')) w2 (\<lambda>title.
         bind_exc (py_get data ''date'' (PStr ''Unknown'')) w2 (\<lambda>date.
         let w3 = log_verbose (''Title: '' @ py_str env title) w2;
             w4 = log_verbose (''Date: '' @ py_str env date) w3
         in download_and_save env img_url target None w4))))))))"

text \<open>\<^verbatim>\<open>f"{n:02d}"\<close> for a month or a day.\<close>

definition pad2 :: "nat \<Rightarrow> string" where
  "pad2 n = (if n < 10 then CHR ''0'' # str_nat n else str_nat n)"

definition wikipedia_headers :: "(string \<times> string) list" where
  "wikipedia_headers =
     [(''User-Agent'',
       ''any-photo-of-the-day/1.0 (https://github.com/yourusername/any-photo-of-the-day)'')]"

definition download_wikipedia :: "env \<Rightarrow> string \<Rightarrow> world \<Rightarrow> pyval result" where
  "download_wikipedia env target w =
     (let w1 = log_verbose ''Fetching Wikipedia Picture of the Day'' w;
          (year, month, day) = today env;
          url = ''https://en.wikipedia.org/api/rest_v1/feed/featured/'' @ str_nat year @ ''/''
                  @ pad2 month @ ''/'' @ pad2 day;
          headers = wikipedia_headers
      in bind_io (retry_request env (PStr url) 3 30 (Some headers) None w1) (\<lambda>resp w2.
         bind_exc (response_json resp) w2 (\<lambda>data.
         bind_exc (py_get data ''image'' PNone) w2 (\<lambda>potd.
         if \<not> py_truthy potd then
           (Inl (PyException ''No Picture of the Day found in Wikipedia response''), w2)
         else
         bind_exc (py_get potd ''image'' (PDict [])) w2 (\<lambda>image.
         bind_exc (py_get image ''source'' PNone) w2 (\<lambda>img_url.
         if \<not> py_truthy img_url then
           (Inl (PyException ''No image URL found in Wikipedia Picture of the Day''), w2)
         else
         bind_exc (py_get potd ''title'' (PStr ''Unknown'')) w2 (\<lambda>title.
         bind_exc (py_get potd ''description'' (PDict [])) w2 (\<lambda>description_obj.
         bind_exc (py_get description_obj ''text'' (PStr ''No description'')) w2 (\<lambda>description.
         bind_exc (py_get potd ''artist'' (PDict [])) w2 (\<lambda>artist_obj.
         bind_exc (py_get artist_obj ''text'' (PStr ''Unknown'')) w2 (\<lambda>artist.
         let w3 = log_verbose (''Title: '' @ py_str env title) w2;
             w4 = log_verbose (''Artist: '' @ py_str env artist) w3
         in
         bind_exc (py_len description) w4 (\<lambda>n.
         bind_exc (if n > 100 then
                (case py_slice100 description of
                   Inl e \<Rightarrow> Inl e
                 | Inr d \<Rightarrow> Inr (''Description: '' @ py_str env d @ ''...''))
              else Inr (''Description: '' @ py_str env description)) w4 (\<lambda>line.
         let w5 = log_verbose line w4
         in download_and_save env img_url target (Some headers) w5)))))))))))))"

definition download_unsplash ::
  "env \<Rightarrow> string \<Rightarrow> string \<Rightarrow> string option \<Rightarrow> string option \<Rightarrow> world \<Rightarrow> pyval result" where
  "download_unsplash env target api_key topic query w =
     (let w1 = log_verbose (''Fetching Unsplash photo''
                 @ (case topic of
                      None \<Rightarrow> ''''
                    | Some t \<Rightarrow> if t = '''' then '''' else '' (topic: '' @ t @ '')'')) w
      in if api_key = '''' then
           (Inl (PyException
              ''Unsplash API key is required. Get one at https://unsplash.com/developers''), w1)
         else
         (let url = ''https://api.unsplash.com/photos/random'';
              params0 = [(''orientation'', ''landscape'')];
              (params1, w2) =
                (case topic of
                   None \<Rightarrow> (params0, w1)
                 | Some t \<Rightarrow>
                     if t = '''' then (params0, w1)
                     else (params0 @ [(''topics'', t)], log_verbose (''Using topic: '' @ t) w1));
              (params2, w3) =
                (case query of
                   None \<Rightarrow> (params1, w2)
                 | Some q \<Rightarrow>
                     if q = '''' then (params1, w2)
                     else (params1 @ [(''query'', q)], log_verbose (''Using query: '' @ q) w2));
              headers = [(''Authorization'', ''Client-ID '' @ api_key)];
              w4 = log_verbose (''Fetching from Unsplash API: '' @ url) w3
          in bind_io (retry_request env (PStr url) 3 30 (Some headers) (Some params2) w4) (\<lambda>resp w5.
             bind_exc (response_json resp) w5 (\<lambda>data.
             bind_exc (py_get data ''urls'' (PDict [])) w5 (\<lambda>urls.
             bind_exc (py_get urls ''full'' PNone) w5 (\<lambda>full.
             bind_exc (py_or full
                    (case py_get data ''urls'' (PDict []) of
                       Inl e \<Rightarrow> Inl e
                     | Inr urls' \<Rightarrow> py_get urls' ''regular'' PNone)) w5 (\<lambda>img_url.
             if \<not> py_truthy img_url then
               (Inl (PyException ''No image URL found in Unsplash response''), w5)
             else
             bind_exc (py_get data ''user'' (PDict [])) w5 (\<lambda>user.
             bind_exc (py_get user ''name'' (PStr ''Unknown'')) w5 (\<lambda>photographer.
             let w6 = log_verbose (''Photo by: '' @ py_str env photographer) w5
             in download_and_save env img_url target None w6)))))))))"

section \<open>Command line\<close>

datatype source = Bing | Nasa | Wikipedia | Unsplash

text \<open>The namespace \<^verbatim>\<open>argparse\<close> hands to \<^verbatim>\<open>main\<close>.\<close>

record args =
  arg_source :: source
  arg_target :: string
  arg_api_key :: string
  arg_unsplash_api_key :: "string option"
  arg_topic :: "string option"
  arg_query :: "string option"
  arg_verbose :: bool

text \<open>The body of the \<^verbatim>\<open>try\<close> block of \<^verbatim>\<open>main\<close>.\<close>

definition dispatch :: "env \<Rightarrow> args \<Rightarrow> world \<Rightarrow> pyval result" where
  "dispatch env a w =
     (case arg_source a of
        Bing \<Rightarrow> download_bing env (arg_target a) w
      | Nasa \<Rightarrow> download_nasa env (arg_target a) (arg_api_key a) w
      | Wikipedia \<Rightarrow> download_wikipedia env (arg_target a) w
      | Unsplash \<Rightarrow>
          (case (case arg_unsplash_api_key a of
                   None \<Rightarrow> None
                 | Some k \<Rightarrow> if k = '''' then None else Some k) of
             None \<Rightarrow>
               (Inl (SystemExit 1),
                print_err ''Get a free API key at: https://unsplash.com/developers''
                  (print_err ''Error: --unsplash-api-key is required for Unsplash source'' w))
           | Some k \<Rightarrow> download_unsplash env (arg_target a) k (arg_topic a) (arg_query a) w))"

text \<open>
  \<^verbatim>\<open>main\<close> after argument parsing: the exit code of the process and the final world.
  \<open>SystemExit\<close> passes both handlers.
\<close>

definition main :: "env \<Rightarrow> args \<Rightarrow> world \<Rightarrow> nat \<times> world" where
  "main env a w =
     (case dispatch env a (w\<lparr>VERBOSE := arg_verbose a\<rparr>) of
        (Inr v, w') \<Rightarrow> (0, w')
      | (Inl e, w') \<Rightarrow>
          (case e of
             KeyboardInterrupt \<Rightarrow> (1, print (CHR 0x0A # ''Cancelled by user'') w')
           | SystemExit code \<Rightarrow> (code, w')
           | _ \<Rightarrow> (1, print_err (''Error: '' @ exc_str env e) w')))"

text \<open>A world in which nothing has happened yet.\<close>

definition initial_world :: world where
  "initial_world =
     \<lparr>VERBOSE = False, requests = [], sleeps = [], stdout = [], stderr = [],
      mkdirs = [], writes = [], saves = []\<rparr>"

section \<open>Sample environments\<close>

text \<open>
  A server answer with status 200, and an environment around a given network in which
  every file-system operation succeeds.
\<close>

definition ok_response :: "string \<Rightarrow> string \<Rightarrow> pyval option \<Rightarrow> response" where
  "ok_response content_type body js =
     \<lparr>status_code = 200, reason = ''OK'', final_url = '''',
      resp_headers = [(''Content-Type'', content_type)], content = body, json_body = js\<rparr>"

definition sample_env :: "(nat \<Rightarrow> request \<Rightarrow> outcome) \<Rightarrow> env" where
  "sample_env n =
     \<lparr>net = n, fs = (\<lambda>op. None), today = (2024, 1, 5), py_repr = (\<lambda>v. ''<object>''),
      builtin_msg = (\<lambda>e. ''<builtin>''), bracketed_host_ok = (\<lambda>h. True)\<rparr>"

text \<open>Two timeouts, then an image.\<close>

definition flaky_net :: "nat \<Rightarrow> request \<Rightarrow> outcome" where
  "flaky_net k rq =
     (if k < 2 then Raises (RequestException ''timed out'')
      else Returns (ok_response ''image/png'' ''PNGDATA'' None))"

text \<open>A connection error first, HTTP status 503 ever after.\<close>

definition failing_net :: "nat \<Rightarrow> request \<Rightarrow> outcome" where
  "failing_net k rq =
     (if k = 0 then Raises (RequestException ''connection refused'')
      else Returns \<lparr>status_code = 503, reason = ''Service Unavailable'', final_url = ''u'',
                    resp_headers = [], content = '''', json_body = None\<rparr>)"

definition get_request :: "string \<Rightarrow> request" where
  "get_request u =
     \<lparr>req_url = PStr u, req_timeout = 30, req_allow_redirects = True,
      req_headers = None, req_params = None\<rparr>"

section \<open>The requests and the outcomes of an adapter\<close>

text \<open>The request \<^verbatim>\<open>retry_request\<close> issues when called with its default retries and timeout.\<close>

definition fetch_request ::
  "pyval \<Rightarrow> (string \<times> string) list option \<Rightarrow> (string \<times> string) list option \<Rightarrow> request" where
  "fetch_request url headers params =
     \<lparr>req_url = url, req_timeout = 30, req_allow_redirects = True,
      req_headers = headers, req_params = params\<rparr>"

text \<open>The metadata request of each adapter.\<close>

definition bing_request :: request where
  "bing_request =
     fetch_request (PStr ''https://www.bing.com/HPImageArchive.aspx?format=js&idx=0&n=1&mkt=en-US'')
       None None"

definition nasa_request :: "string \<Rightarrow> request" where
  "nasa_request api_key =
     fetch_request (PStr (''https://api.nasa.gov/planetary/apod?api_key='' @ api_key)) None None"

definition wikipedia_request :: "env \<Rightarrow> request" where
  "wikipedia_request env =
     (case today env of
        (year, month, day) \<Rightarrow>
          fetch_request
            (PStr (''https://en.wikipedia.org/api/rest_v1/feed/featured/'' @ str_nat year @ ''/''
                     @ pad2 month @ ''/'' @ pad2 day))
            (Some wikipedia_headers) None)"

definition unsplash_params :: "string option \<Rightarrow> string option \<Rightarrow> (string \<times> string) list" where
  "unsplash_params topic query =
     [(''orientation'', ''landscape'')]
     @ (case topic of None \<Rightarrow> [] | Some t \<Rightarrow> if t = '''' then [] else [(''topics'', t)])
     @ (case query of None \<Rightarrow> [] | Some q \<Rightarrow> if q = '''' then [] else [(''query'', q)])"

definition unsplash_request :: "string \<Rightarrow> string option \<Rightarrow> string option \<Rightarrow> request" where
  "unsplash_request api_key topic query =
     fetch_request (PStr ''https://api.unsplash.com/photos/random'')
       (Some [(''Authorization'', ''Client-ID '' @ api_key)])
       (Some (unsplash_params topic query))"

text \<open>
  Since \<open>w\<close>, only the metadata request \<open>meta\<close> has been issued (any number of times)
  and \<^verbatim>\<open>download_and_save\<close> has not been called.
\<close>

definition meta_state :: "world \<Rightarrow> request \<Rightarrow> world \<Rightarrow> bool" where
  "meta_state w meta w2 =
     (saves w2 = saves w \<and> (\<exists>n. requests w2 = requests w @ replicate n meta))"

definition is_nonempty_str :: "pyval \<Rightarrow> bool" where
  "is_nonempty_str v = (case v of PStr s \<Rightarrow> s \<noteq> [] | _ \<Rightarrow> False)"

text \<open>
  How a run of an adapter from \<open>w\<close> can end: with a failure before any call of
  \<^verbatim>\<open>download_and_save\<close>, or after exactly one call of it, on a URL value that passes
  \<open>ok\<close>, with the headers \<open>img_headers\<close>, every image request carrying these.
\<close>

definition adapter_outcome ::
  "world \<Rightarrow> request \<Rightarrow> (pyval \<Rightarrow> bool) \<Rightarrow> string \<Rightarrow> (string \<times> string) list option
     \<Rightarrow> pyval result \<Rightarrow> bool" where
  "adapter_outcome w meta ok target img_headers r =
     (case r of
        (res, w') \<Rightarrow>
          (isl res \<and> saves w' = saves w \<and> (\<exists>n. requests w' = requests w @ replicate n meta))
          \<or> (\<exists>u n m. ok u \<and> saves w' = saves w @ [(u, target, img_headers)]
                \<and> requests w' = requests w @ replicate n meta
                                   @ replicate m (fetch_request u img_headers None)))"

section \<open>Sample servers\<close>

text \<open>A server that answers every GET with a PNG image.\<close>

definition image_net :: "nat \<Rightarrow> request \<Rightarrow> outcome" where
  "image_net k rq = Returns (ok_response ''image/png'' ''PNGDATA'' None)"

text \<open>A server that answers the first GET with a JSON document and the later ones with a PNG image.\<close>

definition json_then_image_net :: "pyval \<Rightarrow> nat \<Rightarrow> request \<Rightarrow> outcome" where
  "json_then_image_net doc k rq =
     (if k = 0 then Returns (ok_response ''application/json'' '''' (Some doc))
      else Returns (ok_response ''image/png'' ''PNGDATA'' None))"

text \<open>
  An APOD answer whose \<^verbatim>\<open>hdurl\<close> is the number 42; \<^verbatim>\<open>requests\<close> refuses to fetch
  \<^verbatim>\<open>42\<close>, which has no scheme.
\<close>

definition nasa_number_net :: "nat \<Rightarrow> request \<Rightarrow> outcome" where
  "nasa_number_net k rq =
     (if k = 0 then
        Returns (ok_response ''application/json'' ''''
                   (Some (PDict [(''media_type'', PStr ''image''), (''hdurl'', PInt 42)])))
      else Raises (RequestException ''Invalid URL 42: No scheme supplied''))"



definition unsplash_doc :: pyval where
  "unsplash_doc = PDict [(''urls'', PDict [(''full'', PStr ''https://images.unsplash.com/photo-1'')])]"

section \<open>Facts about the effect traces\<close>

lemma log_verbose_fields [simp]:
  "requests (log_verbose m w) = requests w"
  "sleeps (log_verbose m w) = sleeps w"
  "VERBOSE (log_verbose m w) = VERBOSE w"
  "stderr (log_verbose m w) = stderr w"
  "mkdirs (log_verbose m w) = mkdirs w"
  "writes (log_verbose m w) = writes w"
  "saves (log_verbose m w) = saves w"
  by (simp_all add: log_verbose_def print_def)

lemma log_verbose_quiet [simp]: "\<not> VERBOSE w \<Longrightarrow> log_verbose m w = w"
  by (simp add: log_verbose_def)

lemma sleep_fields [simp]:
  "requests (sleep n w) = requests w"
  "sleeps (sleep n w) = sleeps w @ [n]"
  "VERBOSE (sleep n w) = VERBOSE w"
  "stdout (sleep n w) = stdout w"
  "stderr (sleep n w) = stderr w"
  "mkdirs (sleep n w) = mkdirs w"
  "writes (sleep n w) = writes w"
  "saves (sleep n w) = saves w"
  by (simp_all add: sleep_def)

section \<open>The retry loop\<close>

text \<open>
  \<open>N\<close> failed attempts starting at attempt \<open>a\<close>, then a success, with attempts to
  spare: the loop returns the response after sleeping \<open>2 ^ a\<close>, ..., \<open>2 ^ (a + N - 1)\<close>.
\<close>

lemma retry_attempts_success:
  assumes "a + N < M" and "int M = max_retries"
    and "\<forall>k<N. \<exists>e. get_outcome env (length (requests w) + k) rq = Inl e \<and> is_RequestException e"
    and "get_outcome env (length (requests w) + N) rq = Inr resp"
  shows "\<exists>w'. retry_attempts env rq max_retries [a..<M] w = (Returned resp, w')
           \<and> sleeps w' = sleeps w @ map (\<lambda>k. 2 ^ k) [a..<a + N]
           \<and> requests w' = requests w @ replicate (Suc N) rq
           \<and> saves w' = saves w \<and> writes w' = writes w \<and> mkdirs w' = mkdirs w
           \<and> stderr w' = stderr w \<and> VERBOSE w' = VERBOSE w"
  using assms
proof (induction N arbitrary: a w)
  case 0
  have "[a..<M] = a # [Suc a..<M]" using 0 by (simp add: upt_conv_Cons)
  then show ?case using 0 by (simp add: http_get_def Let_def)
next
  case (Suc N)
  have l: "[a..<M] = a # [Suc a..<M]" using Suc.prems by (simp add: upt_conv_Cons)
  from Suc.prems(3) obtain e
    where e: "get_outcome env (length (requests w)) rq = Inl e" "is_RequestException e"
    by fastforce
  define w2 where
    "w2 = sleep (2 ^ a)
            (log_verbose (''Request failed: '' @ exc_str env e @ ''. Retrying...'')
               ((log_verbose (''Fetching '' @ py_str env (req_url rq) @ '' (attempt ''
                    @ str_nat (a + 1) @ ''/'' @ str_int max_retries @ '')'') w)
                  \<lparr>requests := requests w @ [rq]\<rparr>))"
  have len: "length (requests w2) = Suc (length (requests w))" by (simp add: w2_def)
  have ne: "int a \<noteq> max_retries - 1" using Suc.prems by auto
  have step: "retry_attempts env rq max_retries [a..<M] w
                = retry_attempts env rq max_retries [Suc a..<M] w2"
    using e ne by (simp add: l http_get_def Let_def w2_def)
  have p1: "Suc a + N < M" using Suc.prems by simp
  have p3: "\<forall>k<N. \<exists>e. get_outcome env (length (requests w2) + k) rq = Inl e \<and> is_RequestException e"
  proof (intro allI impI)
    fix k assume "k < N"
    then have "Suc k < Suc N" by simp
    with Suc.prems(3)
    have "\<exists>e. get_outcome env (length (requests w) + Suc k) rq = Inl e \<and> is_RequestException e"
      by blast
    then show "\<exists>e. get_outcome env (length (requests w2) + k) rq = Inl e \<and> is_RequestException e"
      by (simp add: len)
  qed
  have p4: "get_outcome env (length (requests w2) + N) rq = Inr resp"
    using Suc.prems(4) by (simp add: len)
  from Suc.IH[OF p1 Suc.prems(2) p3 p4] obtain w' where
    w': "retry_attempts env rq max_retries [Suc a..<M] w2 = (Returned resp, w')"
        "sleeps w' = sleeps w2 @ map (\<lambda>k. 2 ^ k) [Suc a..<Suc a + N]"
        "requests w' = requests w2 @ replicate (Suc N) rq"
        "saves w' = saves w2" "writes w' = writes w2" "mkdirs w' = mkdirs w2"
        "stderr w' = stderr w2" "VERBOSE w' = VERBOSE w2"
    by blast
  have up: "[a..<a + Suc N] = a # [Suc a..<Suc a + N]" by (simp add: upt_conv_Cons)
  have "sleeps w' = sleeps w @ map (\<lambda>k. 2 ^ k) [a..<a + Suc N]"
    unfolding up using w'(2) by (simp add: w2_def)
  moreover have "requests w' = requests w @ replicate (Suc (Suc N)) rq"
    using w'(3) by (simp add: w2_def replicate_append_same)
  moreover have "saves w' = saves w" "writes w' = writes w" "mkdirs w' = mkdirs w"
    "stderr w' = stderr w" "VERBOSE w' = VERBOSE w"
    using w' by (simp_all add: w2_def)
  ultimately show ?case using step w'(1) by simp
qed

text \<open>
  Every remaining attempt fails: the loop raises the failure of the last attempt, after
  sleeping between the attempts but not after the last.
\<close>

lemma retry_attempts_all_fail:
  assumes "a + d + 1 = M" and "int M = max_retries"
    and "\<forall>k\<le>d. \<exists>e. get_outcome env (length (requests w) + k) rq = Inl e \<and> is_RequestException e"
    and "get_outcome env (length (requests w) + d) rq = Inl e_last"
  shows "\<exists>w'. retry_attempts env rq max_retries [a..<M] w = (Raised e_last, w')
           \<and> sleeps w' = sleeps w @ map (\<lambda>k. 2 ^ k) [a..<a + d]
           \<and> requests w' = requests w @ replicate (Suc d) rq
           \<and> saves w' = saves w \<and> writes w' = writes w \<and> mkdirs w' = mkdirs w
           \<and> stderr w' = stderr w \<and> VERBOSE w' = VERBOSE w"
  using assms
proof (induction d arbitrary: a w)
  case 0
  have l: "[a..<M] = [a]" using 0 by auto
  from 0(3) have r: "is_RequestException e_last" using 0(4) by auto
  have "int a = max_retries - 1" using 0 by auto
  then show ?case using 0(4) r by (simp add: l http_get_def Let_def)
next
  case (Suc d)
  have l: "[a..<M] = a # [Suc a..<M]" using Suc.prems by (simp add: upt_conv_Cons)
  from Suc.prems(3) obtain e
    where e: "get_outcome env (length (requests w)) rq = Inl e" "is_RequestException e"
    by fastforce
  define w2 where
    "w2 = sleep (2 ^ a)
            (log_verbose (''Request failed: '' @ exc_str env e @ ''. Retrying...'')
               ((log_verbose (''Fetching '' @ py_str env (req_url rq) @ '' (attempt ''
                    @ str_nat (a + 1) @ ''/'' @ str_int max_retries @ '')'') w)
                  \<lparr>requests := requests w @ [rq]\<rparr>))"
  have len: "length (requests w2) = Suc (length (requests w))" by (simp add: w2_def)
  have ne: "int a \<noteq> max_retries - 1" using Suc.prems by auto
  have step: "retry_attempts env rq max_retries [a..<M] w
                = retry_attempts env rq max_retries [Suc a..<M] w2"
    using e ne by (simp add: l http_get_def Let_def w2_def)
  have p1: "Suc a + d + 1 = M" using Suc.prems by simp
  have p3: "\<forall>k\<le>d. \<exists>e. get_outcome env (length (requests w2) + k) rq = Inl e \<and> is_RequestException e"
  proof (intro allI impI)
    fix k assume "k \<le> d"
    then have "Suc k \<le> Suc d" by simp
    with Suc.prems(3)
    have "\<exists>e. get_outcome env (length (requests w) + Suc k) rq = Inl e \<and> is_RequestException e"
      by blast
    then show "\<exists>e. get_outcome env (length (requests w2) + k) rq = Inl e \<and> is_RequestException e"
      by (simp add: len)
  qed
  have p4: "get_outcome env (length (requests w2) + d) rq = Inl e_last"
    using Suc.prems(4) by (simp add: len)
  from Suc.IH[OF p1 Suc.prems(2) p3 p4] obtain w' where
    w': "retry_attempts env rq max_retries [Suc a..<M] w2 = (Raised e_last, w')"
        "sleeps w' = sleeps w2 @ map (\<lambda>k. 2 ^ k) [Suc a..<Suc a + d]"
        "requests w' = requests w2 @ replicate (Suc d) rq"
        "saves w' = saves w2" "writes w' = writes w2" "mkdirs w' = mkdirs w2"
        "stderr w' = stderr w2" "VERBOSE w' = VERBOSE w2"
    by blast
  have up: "[a..<a + Suc d] = a # [Suc a..<Suc a + d]" by (simp add: upt_conv_Cons)
  have "sleeps w' = sleeps w @ map (\<lambda>k. 2 ^ k) [a..<a + Suc d]"
    unfolding up using w'(2) by (simp add: w2_def)
  moreover have "requests w' = requests w @ replicate (Suc (Suc d)) rq"
    using w'(3) by (simp add: w2_def replicate_append_same)
  moreover have "saves w' = saves w" "writes w' = writes w" "mkdirs w' = mkdirs w"
    "stderr w' = stderr w" "VERBOSE w' = VERBOSE w"
    using w' by (simp_all add: w2_def)
  ultimately show ?case using step w'(1) by simp
qed

text \<open>With an attempt left to make, the loop never runs out: it returns or raises.\<close>

lemma retry_attempts_not_exhausted:
  assumes "a + d + 1 = M" and "int M = max_retries"
  shows "fst (retry_attempts env rq max_retries [a..<M] w) \<noteq> Exhausted"
  using assms
proof (induction d arbitrary: a w)
  case 0
  have l: "[a..<M] = [a]" using 0 by auto
  have "int a = max_retries - 1" using 0 by auto
  then show ?case
    by (simp add: l http_get_def Let_def split: sum.splits)
next
  case (Suc d)
  have l: "[a..<M] = a # [Suc a..<M]" using Suc.prems by (simp add: upt_conv_Cons)
  have "Suc a + d + 1 = M" using Suc.prems by simp
  from Suc.IH[OF this Suc.prems(2)]
  have ih: "\<And>w. fst (retry_attempts env rq max_retries [Suc a..<M] w) \<noteq> Exhausted" .
  show ?case
    by (simp add: l http_get_def Let_def ih split: sum.splits)
qed

section \<open>Claims about fetch-with-retry\<close>

text \<open>
  C1. If the first \<open>N\<close> GET attempts fail with a request error, attempt \<open>N + 1\<close>
  succeeds and \<open>N \<le> max_retries - 1\<close>, then \<^verbatim>\<open>retry_request\<close> returns that response,
  having slept exactly \<open>N\<close> times, for 1, 2, 4, ..., \<open>2 ^ (N - 1)\<close> seconds in this
  order, and having issued exactly \<open>N + 1\<close> requests: nothing follows the success.
\<close>

theorem retry_request_backoff_then_success:
  assumes "int N \<le> max_retries - 1"
    and "rq = \<lparr>req_url = url, req_timeout = timeout, req_allow_redirects = True,
               req_headers = headers, req_params = params\<rparr>"
    and "\<forall>k<N. \<exists>e. get_outcome env (length (requests w) + k) rq = Inl e \<and> is_RequestException e"
    and "get_outcome env (length (requests w) + N) rq = Inr resp"
  shows "\<exists>w'. retry_request env url max_retries timeout headers params w = (Inr resp, w')
           \<and> sleeps w' = sleeps w @ map (\<lambda>k. 2 ^ k) [0..<N]
           \<and> requests w' = requests w @ replicate (Suc N) rq"
proof -
  have m: "0 + N < nat max_retries" "int (nat max_retries) = max_retries"
    using assms(1) by auto
  from retry_attempts_success[OF m assms(3) assms(4)] obtain w' where
    "retry_attempts env rq max_retries [0..<nat max_retries] w = (Returned resp, w')"
    "sleeps w' = sleeps w @ map (\<lambda>k. 2 ^ k) [0..<0 + N]"
    "requests w' = requests w @ replicate (Suc N) rq"
    by blast
  then show ?thesis
    by (simp add: retry_request_def py_range_def assms(2) Let_def)
qed

theorem retry_request_backoff_then_success_witness:
  "int 2 \<le> 3 - 1
   \<and> (\<exists>w'. retry_request (sample_env flaky_net) (PStr ''u'') 3 30 None None initial_world
              = (Inr (ok_response ''image/png'' ''PNGDATA'' None), w')
          \<and> sleeps w' = [1, 2]
          \<and> requests w' = [get_request ''u'', get_request ''u'', get_request ''u''])"
proof -
  have h1: "int 2 \<le> 3 - 1" by simp
  have h2: "get_request ''u'' = \<lparr>req_url = PStr ''u'', req_timeout = 30, req_allow_redirects = True,
               req_headers = None, req_params = None\<rparr>"
    by (simp add: get_request_def)
  have h3: "\<forall>k<2. \<exists>e. get_outcome (sample_env flaky_net) (length (requests initial_world) + k)
                        (get_request ''u'') = Inl e \<and> is_RequestException e"
    by (simp add: get_outcome_def sample_env_def flaky_net_def initial_world_def)
  have h4: "get_outcome (sample_env flaky_net) (length (requests initial_world) + 2)
              (get_request ''u'') = Inr (ok_response ''image/png'' ''PNGDATA'' None)"
    by (simp add: get_outcome_def sample_env_def flaky_net_def initial_world_def
          raise_for_status_def ok_response_def)
  have up: "[0..<2] = [0, Suc 0]" by (simp add: upt_rec)
  from retry_request_backoff_then_success[OF h1 h2 h3 h4]
  show ?thesis by (simp add: initial_world_def up numeral_2_eq_2 numeral_3_eq_3)
qed

text \<open>
  C2, as stated: when every attempt fails, the error of the first failed attempt is
  raised. With two attempts that fail differently the error raised is the second one.
\<close>

theorem retry_request_first_failure_counterexample:
  "get_outcome (sample_env failing_net) 0 (get_request ''u'')
     = Inl (RequestException ''connection refused'')
   \<and> get_outcome (sample_env failing_net) 1 (get_request ''u'')
     = Inl (HTTPError ''503 Server Error: Service Unavailable for url: u'')
   \<and> fst (retry_request (sample_env failing_net) (PStr ''u'') 2 30 None None initial_world)
     = Inl (HTTPError ''503 Server Error: Service Unavailable for url: u'')
   \<and> fst (retry_request (sample_env failing_net) (PStr ''u'') 2 30 None None initial_world)
     \<noteq> Inl (RequestException ''connection refused'')"
  by code_simp

text \<open>
  C2, amended: when all \<open>max_retries \<ge> 1\<close> attempts fail with a request error,
  \<^verbatim>\<open>retry_request\<close> raises the error of the last attempt and returns no response; it
  has slept after every attempt but the last and issued \<open>max_retries\<close> requests.
\<close>

theorem retry_request_all_fail_raises_last:
  assumes "1 \<le> max_retries"
    and "rq = \<lparr>req_url = url, req_timeout = timeout, req_allow_redirects = True,
               req_headers = headers, req_params = params\<rparr>"
    and "\<forall>k<nat max_retries.
           \<exists>e. get_outcome env (length (requests w) + k) rq = Inl e \<and> is_RequestException e"
    and "get_outcome env (length (requests w) + (nat max_retries - 1)) rq = Inl e_last"
  shows "\<exists>w'. retry_request env url max_retries timeout headers params w = (Inl e_last, w')
           \<and> sleeps w' = sleeps w @ map (\<lambda>k. 2 ^ k) [0..<nat max_retries - 1]
           \<and> requests w' = requests w @ replicate (nat max_retries) rq"
proof -
  define d where "d = nat max_retries - 1"
  have m: "0 + d + 1 = nat max_retries" "int (nat max_retries) = max_retries"
    using assms(1) by (auto simp: d_def)
  have f: "\<forall>k\<le>d. \<exists>e. get_outcome env (length (requests w) + k) rq = Inl e \<and> is_RequestException e"
    using assms(3) m(1) by auto
  have l: "get_outcome env (length (requests w) + d) rq = Inl e_last"
    using assms(4) by (simp add: d_def)
  from retry_attempts_all_fail[OF m f l] obtain w' where
    "retry_attempts env rq max_retries [0..<nat max_retries] w = (Raised e_last, w')"
    "sleeps w' = sleeps w @ map (\<lambda>k. 2 ^ k) [0..<0 + d]"
    "requests w' = requests w @ replicate (Suc d) rq"
    by blast
  moreover have "Suc d = nat max_retries" using m(1) by simp
  ultimately show ?thesis
    by (simp add: retry_request_def py_range_def assms(2) Let_def d_def)
qed

theorem retry_request_all_fail_raises_last_witness:
  "(1::int) \<le> 2
   \<and> (\<exists>w'. retry_request (sample_env failing_net) (PStr ''u'') 2 30 None None initial_world
              = (Inl (HTTPError ''503 Server Error: Service Unavailable for url: u''), w')
          \<and> sleeps w' = [1]
          \<and> requests w' = [get_request ''u'', get_request ''u''])"
proof -
  have h1: "(1::int) \<le> 2" by simp
  have h2: "get_request ''u'' = \<lparr>req_url = PStr ''u'', req_timeout = 30, req_allow_redirects = True,
               req_headers = None, req_params = None\<rparr>"
    by (simp add: get_request_def)
  have o: "get_outcome (sample_env failing_net) 0 (get_request ''u'')
             = Inl (RequestException ''connection refused'')"
    "get_outcome (sample_env failing_net) (Suc 0) (get_request ''u'')
             = Inl (HTTPError ''503 Server Error: Service Unavailable for url: u'')"
    by code_simp+
  have h3: "\<forall>k<nat 2. \<exists>e. get_outcome (sample_env failing_net)
                 (length (requests initial_world) + k) (get_request ''u'') = Inl e
               \<and> is_RequestException e"
    using o by (auto simp: initial_world_def less_Suc_eq numeral_2_eq_2)
  have h4: "get_outcome (sample_env failing_net) (length (requests initial_world) + (nat 2 - 1))
              (get_request ''u'') = Inl (HTTPError ''503 Server Error: Service Unavailable for url: u'')"
    using o by (simp add: initial_world_def)
  from retry_request_all_fail_raises_last[OF h1 h2 h3 h4]
  show ?thesis by (simp add: initial_world_def numeral_2_eq_2)
qed

text \<open>
  C10. With \<open>max_retries = 0\<close> the loop has no attempt: \<^verbatim>\<open>retry_request\<close> raises
  \<^verbatim>\<open>RequestException("Max retries exceeded")\<close> and leaves the world as it was (no
  request, no sleep, no output). With \<open>max_retries \<ge> 1\<close> the loop never runs out, so the
  \<^verbatim>\<open>raise\<close> after it is not reached.
\<close>

theorem retry_request_zero_retries:
  "retry_request env url 0 timeout headers params w
     = (Inl (RequestException ''Max retries exceeded''), w)
   \<and> (1 \<le> max_retries \<longrightarrow>
        fst (retry_attempts env rq max_retries (py_range max_retries) w) \<noteq> Exhausted)"
proof
  show "retry_request env url 0 timeout headers params w
          = (Inl (RequestException ''Max retries exceeded''), w)"
    by (simp add: retry_request_def py_range_def)
next
  show "1 \<le> max_retries \<longrightarrow>
          fst (retry_attempts env rq max_retries (py_range max_retries) w) \<noteq> Exhausted"
  proof
    assume "1 \<le> max_retries"
    then have "0 + (nat max_retries - 1) + 1 = nat max_retries"
      "int (nat max_retries) = max_retries" by auto
    from retry_attempts_not_exhausted[OF this]
    show "fst (retry_attempts env rq max_retries (py_range max_retries) w) \<noteq> Exhausted"
      by (simp add: py_range_def)
  qed
qed

theorem retry_request_zero_retries_witness:
  "retry_request (sample_env failing_net) (PStr ''u'') 0 30 None None initial_world
     = (Inl (RequestException ''Max retries exceeded''), initial_world)
   \<and> (1::int) \<le> 1
   \<and> fst (retry_attempts (sample_env failing_net) (get_request ''u'') 1 (py_range 1) initial_world)
       \<noteq> Exhausted"
  using retry_request_zero_retries[of "sample_env failing_net" "PStr ''u''" 30 None None
          initial_world 1 "get_request ''u''"]
  by simp

section \<open>Lower case, last occurrences and extensions\<close>

lemma lower_char_dot [simp]: "lower_char c = CHR ''.'' \<longleftrightarrow> c = CHR ''.''"
proof
  assume a: "lower_char c = CHR ''.''"
  show "c = CHR ''.''"
  proof (cases "(65 \<le> (of_char c :: nat) \<and> (of_char c :: nat) \<le> 90)
                \<or> (192 \<le> (of_char c :: nat) \<and> (of_char c :: nat) \<le> 222 \<and> (of_char c :: nat) \<noteq> 215)")
    case True
    with a have "char_of ((of_char c :: nat) + 32) = CHR ''.''"
      by (simp add: lower_char_def Let_def)
    then have "(of_char (char_of ((of_char c :: nat) + 32)) :: nat) = of_char CHR ''.''"
      by simp
    then have "((of_char c :: nat) + 32) mod 256 = 46" by simp
    with True show ?thesis by auto
  next
    case False
    with a show ?thesis by (simp add: lower_char_def Let_def)
  qed
next
  assume "c = CHR ''.''"
  then show "lower_char c = CHR ''.''" by (simp add: lower_char_def)
qed

lemma lower_char_slash [simp]: "lower_char c = CHR ''/'' \<longleftrightarrow> c = CHR ''/''"
proof
  assume a: "lower_char c = CHR ''/''"
  show "c = CHR ''/''"
  proof (cases "(65 \<le> (of_char c :: nat) \<and> (of_char c :: nat) \<le> 90)
                \<or> (192 \<le> (of_char c :: nat) \<and> (of_char c :: nat) \<le> 222 \<and> (of_char c :: nat) \<noteq> 215)")
    case True
    with a have "char_of ((of_char c :: nat) + 32) = CHR ''/''"
      by (simp add: lower_char_def Let_def)
    then have "(of_char (char_of ((of_char c :: nat) + 32)) :: nat) = of_char CHR ''/''"
      by simp
    then have "((of_char c :: nat) + 32) mod 256 = 47" by simp
    with True show ?thesis by auto
  next
    case False
    with a show ?thesis by (simp add: lower_char_def Let_def)
  qed
next
  assume "c = CHR ''/''"
  then show "lower_char c = CHR ''/''" by (simp add: lower_char_def)
qed

lemma dot_in_py_lower [simp]: "CHR ''.'' \<in> set (py_lower s) \<longleftrightarrow> CHR ''.'' \<in> set s"
  unfolding py_lower_def set_map image_iff by (metis lower_char_dot)

lemma slash_in_py_lower [simp]: "CHR ''/'' \<in> set (py_lower s) \<longleftrightarrow> CHR ''/'' \<in> set s"
  unfolding py_lower_def set_map image_iff by (metis lower_char_slash)

text \<open>A recognised suffix, in any case, is a dot followed by neither dot nor slash.\<close>

lemma image_suffix_shape:
  assumes "py_lower suffix \<in> set image_suffixes"
  shows "\<exists>rest. suffix = CHR ''.'' # rest \<and> CHR ''.'' \<notin> set rest \<and> CHR ''/'' \<notin> set rest"
proof -
  from assms obtain t where t: "py_lower suffix = CHR ''.'' # t"
    "CHR ''.'' \<notin> set t" "CHR ''/'' \<notin> set t"
    by (auto simp: image_suffixes_def)
  then obtain a rest where s: "suffix = a # rest" by (cases suffix) (auto simp: py_lower_def)
  with t have "lower_char a = CHR ''.''" "py_lower rest = t" by (auto simp: py_lower_def)
  then have "a = CHR ''.''" "CHR ''.'' \<notin> set rest" "CHR ''/'' \<notin> set rest"
    using t(2,3) dot_in_py_lower[of rest] slash_in_py_lower[of rest] by auto
  with s show ?thesis by blast
qed

lemma py_rfind_absent: "c \<notin> set s \<Longrightarrow> py_rfind c s = - 1"
  by (simp add: py_rfind_def)

lemma py_rfind_last: "c \<notin> set ys \<Longrightarrow> py_rfind c (xs @ c # ys) = int (length xs)"
proof -
  assume a: "c \<notin> set ys"
  then have "takeWhile (\<lambda>x. x \<noteq> c) (rev ys @ c # rev xs) = rev ys"
    by (subst takeWhile_append2) auto
  then show ?thesis by (simp add: py_rfind_def)
qed

text \<open>
  \<^verbatim>\<open>splitext\<close> on a path whose last segment is \<open>base @ suffix\<close>, with a character other
  than a dot in \<open>base\<close>: the extension is \<open>suffix\<close>.
\<close>

lemma splitext_ext_suffix:
  assumes "dir = [] \<or> last dir = CHR ''/''" and "CHR ''/'' \<notin> set base"
    and "\<exists>c\<in>set base. c \<noteq> CHR ''.''"
    and "suffix = CHR ''.'' # rest" and "CHR ''.'' \<notin> set rest" and "CHR ''/'' \<notin> set rest"
  shows "splitext_ext (dir @ base @ suffix) = suffix"
proof -
  let ?p = "dir @ base @ suffix"
  have dot: "py_rfind CHR ''.'' ?p = int (length dir + length base)"
    using py_rfind_last[of "CHR ''.''" rest "dir @ base"] assms(4,5) by simp
  have sep: "py_rfind CHR ''/'' ?p = int (length dir) - 1"
  proof (cases "dir = []")
    case True
    then show ?thesis using assms(2,4,6) by (simp add: py_rfind_absent)
  next
    case False
    with assms(1) obtain d where d: "dir = d @ [CHR ''/'']"
      by (metis append_butlast_last_id)
    have "CHR ''/'' \<notin> set (base @ suffix)" using assms(2,4,6) by simp
    from py_rfind_last[OF this, of d] show ?thesis by (simp add: d)
  qed
  from assms(3) obtain j where j: "j < length base" "base ! j \<noteq> CHR ''.''"
    by (auto simp: in_set_conv_nth)
  have "length dir + j \<in> set [length dir..<length dir + length base]" using j by simp
  moreover have "?p ! (length dir + j) \<noteq> CHR ''.''" using j by (simp add: nth_append)
  ultimately have ex: "list_ex (\<lambda>k. ?p ! k \<noteq> CHR ''.'') [length dir..<length dir + length base]"
    unfolding list_ex_iff by blast
  have n1: "nat (int (length dir) - 1 + 1) = length dir" by simp
  show ?thesis
    unfolding splitext_ext_def Let_def dot sep n1 nat_int
    using ex j(1) by simp
qed

section \<open>Claim about the extension detector\<close>

text \<open>
  C3, as stated: every URL gives one of the five suffixes, and a URL path that ends in a
  recognised suffix gives that suffix whatever the content type. A URL whose network
  location has an unmatched bracket makes \<^verbatim>\<open>urlparse\<close> raise \<open>ValueError\<close>; and the
  path \<^verbatim>\<open>/.png\<close> ends in \<^verbatim>\<open>.png\<close>, but \<^verbatim>\<open>splitext\<close> takes a leading dot as part of
  the name, so the content type decides.
\<close>

theorem detect_extension_counterexample:
  "detect_extension (sample_env flaky_net) ''http://[::1/a.png'' None = Inl ValueError
   \<and> urlparse_path (sample_env flaky_net) ''https://example.com/.png'' = Inr ''/.png''
   \<and> detect_extension (sample_env flaky_net) ''https://example.com/.png'' (Some ''image/gif'')
       = Inr ''.gif''"
  by code_simp

text \<open>
  C3, amended: for every URL that \<^verbatim>\<open>urlparse\<close> accepts and every optional content
  type, \<^verbatim>\<open>detect_extension\<close> returns one of \<^verbatim>\<open>.jpg .jpeg .png .gif .webp\<close>; and when
  the URL path ends in a recognised suffix (in any case) that follows, within the last
  path segment, at least one character other than a dot, the lower-cased suffix is
  returned whatever the content type.
\<close>

theorem detect_extension_url_suffix_wins:
  assumes "urlparse_path env url = Inr path"
  shows "(\<exists>ext\<in>set image_suffixes. detect_extension env url content_type = Inr ext)
       \<and> (\<forall>dir base suffix.
            path = dir @ base @ suffix \<and> (dir = [] \<or> last dir = CHR ''/'')
              \<and> CHR ''/'' \<notin> set base \<and> (\<exists>c\<in>set base. c \<noteq> CHR ''.'')
              \<and> py_lower suffix \<in> set image_suffixes
            \<longrightarrow> detect_extension env url content_type = Inr (py_lower suffix))"
proof
  show "\<exists>ext\<in>set image_suffixes. detect_extension env url content_type = Inr ext"
    using assms
    by (auto simp: detect_extension_def Let_def image_suffixes_def split: option.splits)
next
  show "\<forall>dir base suffix.
          path = dir @ base @ suffix \<and> (dir = [] \<or> last dir = CHR ''/'')
            \<and> CHR ''/'' \<notin> set base \<and> (\<exists>c\<in>set base. c \<noteq> CHR ''.'')
            \<and> py_lower suffix \<in> set image_suffixes
          \<longrightarrow> detect_extension env url content_type = Inr (py_lower suffix)"
  proof (intro allI impI, elim conjE)
    fix dir base suffix
    assume p: "path = dir @ base @ suffix" and d: "dir = [] \<or> last dir = CHR ''/''"
      and b: "CHR ''/'' \<notin> set base" "\<exists>c\<in>set base. c \<noteq> CHR ''.''"
      and s: "py_lower suffix \<in> set image_suffixes"
    from image_suffix_shape[OF s] obtain rest where
      r: "suffix = CHR ''.'' # rest" "CHR ''.'' \<notin> set rest" "CHR ''/'' \<notin> set rest"
      by blast
    have e: "splitext_ext path = suffix"
      unfolding p by (rule splitext_ext_suffix[OF d b r])
    have "CHR ''.'' \<in> set path" using p r(1) by simp
    then show "detect_extension env url content_type = Inr (py_lower suffix)"
      using assms s by (simp add: detect_extension_def e)
  qed
qed

theorem detect_extension_url_suffix_wins_witness:
  "urlparse_path (sample_env flaky_net) ''https://example.com/a/b.PNG;x=1?q#f''
     = Inr (''/a/'' @ ''b'' @ ''.PNG'')
   \<and> (\<exists>ext\<in>set image_suffixes.
         detect_extension (sample_env flaky_net) ''https://example.com/a/b.PNG;x=1?q#f''
           (Some ''image/gif'') = Inr ext)
   \<and> detect_extension (sample_env flaky_net) ''https://example.com/a/b.PNG;x=1?q#f''
         (Some ''image/gif'') = Inr ''.png''"
proof -
  have h: "urlparse_path (sample_env flaky_net) ''https://example.com/a/b.PNG;x=1?q#f''
             = Inr (''/a/'' @ ''b'' @ ''.PNG'')"
    by code_simp
  have l: "py_lower ''.PNG'' = ''.png''" by code_simp
  have g: "''/a/'' @ ''b'' @ ''.PNG'' = ''/a/'' @ ''b'' @ ''.PNG''
             \<and> (''/a/'' = [] \<or> last ''/a/'' = CHR ''/'')
             \<and> CHR ''/'' \<notin> set ''b'' \<and> (\<exists>c\<in>set ''b''. c \<noteq> CHR ''.'')
             \<and> py_lower ''.PNG'' \<in> set image_suffixes"
    by (simp add: l image_suffixes_def)
  from detect_extension_url_suffix_wins[OF h, of "Some ''image/gif''"] g
  have "(\<exists>ext\<in>set image_suffixes.
           detect_extension (sample_env flaky_net) ''https://example.com/a/b.PNG;x=1?q#f''
             (Some ''image/gif'') = Inr ext)"
    "detect_extension (sample_env flaky_net) ''https://example.com/a/b.PNG;x=1?q#f''
       (Some ''image/gif'') = Inr (py_lower ''.PNG'')"
    by blast+
  with h l show ?thesis by simp
qed

section \<open>Traces of the fetch and of the saver\<close>

lemma retry_attempts_trace:
  "retry_attempts env rq max_retries xs w = (r, w') \<Longrightarrow>
     saves w' = saves w \<and> writes w' = writes w \<and> mkdirs w' = mkdirs w
     \<and> stderr w' = stderr w \<and> VERBOSE w' = VERBOSE w
     \<and> (\<exists>n. requests w' = requests w @ replicate n rq)"
proof (induction xs arbitrary: w)
  case Nil
  then show ?case by auto
next
  case (Cons a xs)
  let ?w1 = "log_verbose (''Fetching '' @ py_str env (req_url rq) @ '' (attempt ''
                  @ str_nat (a + 1) @ ''/'' @ str_int max_retries @ '')'') w"
  let ?w2 = "?w1\<lparr>requests := requests w @ [rq]\<rparr>"
  have one: "requests w @ [rq] = requests w @ replicate 1 rq" by simp
  show ?case
  proof (cases "get_outcome env (length (requests w)) rq")
    case (Inr resp)
    with Cons.prems have "w' = ?w2" by (simp add: http_get_def Let_def)
    then show ?thesis using one by (auto simp del: replicate.simps)
  next
    case (Inl e)
    show ?thesis
    proof (cases "is_RequestException e \<and> int a \<noteq> max_retries - 1")
      case False
      with Inl Cons.prems have "w' = ?w2" by (auto simp: http_get_def Let_def split: if_splits)
      then show ?thesis using one by (auto simp del: replicate.simps)
    next
      case True
      let ?w3 = "sleep (2 ^ a)
                   (log_verbose (''Request failed: '' @ exc_str env e @ ''. Retrying...'') ?w2)"
      from True Inl Cons.prems
      have "retry_attempts env rq max_retries xs ?w3 = (r, w')"
        by (simp add: http_get_def Let_def)
      from Cons.IH[OF this] obtain n where
        "saves w' = saves w" "writes w' = writes w" "mkdirs w' = mkdirs w"
        "stderr w' = stderr w" "VERBOSE w' = VERBOSE w"
        "requests w' = (requests w @ [rq]) @ replicate n rq"
        by auto
      moreover have "(requests w @ [rq]) @ replicate n rq = requests w @ replicate (Suc n) rq"
        by simp
      ultimately show ?thesis by metis
    qed
  qed
qed

lemma retry_request_trace:
  assumes "retry_request env url max_retries timeout headers params w = (r, w')"
  shows "saves w' = saves w \<and> writes w' = writes w \<and> mkdirs w' = mkdirs w
         \<and> stderr w' = stderr w \<and> VERBOSE w' = VERBOSE w
         \<and> (\<exists>n. requests w' = requests w
                   @ replicate n \<lparr>req_url = url, req_timeout = timeout, req_allow_redirects = True,
                                    req_headers = headers, req_params = params\<rparr>)"
proof -
  let ?rq = "\<lparr>req_url = url, req_timeout = timeout, req_allow_redirects = True,
              req_headers = headers, req_params = params\<rparr>"
  obtain lr w2 where l: "retry_attempts env ?rq max_retries (py_range max_retries) w = (lr, w2)"
    by (cases "retry_attempts env ?rq max_retries (py_range max_retries) w") auto
  with assms have "w' = w2"
    by (cases lr) (auto simp: retry_request_def Let_def)
  with retry_attempts_trace[OF l] show ?thesis by simp
qed

text \<open>
  \<^verbatim>\<open>download_and_save\<close> records its call, issues only image requests with the headers
  it was given, and prints nothing on the error stream.
\<close>

lemma download_and_save_trace:
  assumes "download_and_save env url target headers w = (r, w')"
  shows "saves w' = saves w @ [(url, target, headers)] \<and> stderr w' = stderr w
         \<and> (\<exists>n. requests w' = requests w @ replicate n (fetch_request url headers None))"
proof -
  let ?w1 = "log_verbose (''Downloading image from '' @ py_str env url)
               (w\<lparr>saves := saves w @ [(url, target, headers)]\<rparr>)"
  obtain rr w2 where f: "retry_request env url 3 30 headers None ?w1 = (rr, w2)"
    by (cases "retry_request env url 3 30 headers None ?w1") auto
  from retry_request_trace[OF f]
  have t: "saves w2 = saves w @ [(url, target, headers)]" "stderr w2 = stderr w"
    "\<exists>n. requests w2 = requests w @ replicate n (fetch_request url headers None)"
    by (simp_all add: fetch_request_def)
  from assms f
  have "saves w' = saves w2 \<and> stderr w' = stderr w2 \<and> requests w' = requests w2"
    by (auto simp: download_and_save_def Let_def print_def
             split: sum.splits option.splits if_splits prod.splits)
  with t show ?thesis by simp
qed

section \<open>Outcomes of the adapters\<close>

lemma meta_state_refl [simp]: "meta_state w meta w"
  by (auto simp: meta_state_def intro: exI[of _ 0])

lemma meta_state_log [simp]: "meta_state w meta w2 \<Longrightarrow> meta_state w meta (log_verbose m w2)"
  by (simp add: meta_state_def)

lemma ao_err:
  "meta_state w meta w2 \<Longrightarrow> adapter_outcome w meta ok target h (Inl e, w2)"
  by (simp add: adapter_outcome_def meta_state_def)

lemma ao_if:
  "\<lbrakk>c \<Longrightarrow> adapter_outcome w meta ok target h a; \<not> c \<Longrightarrow> adapter_outcome w meta ok target h b\<rbrakk>
   \<Longrightarrow> adapter_outcome w meta ok target h (if c then a else b)"
  by simp

lemma ao_bind_exc:
  "\<lbrakk>\<And>e. adapter_outcome w meta ok target h (Inl e, w2);
    \<And>x. r = Inr x \<Longrightarrow> adapter_outcome w meta ok target h (k x)\<rbrakk>
   \<Longrightarrow> adapter_outcome w meta ok target h (bind_exc r w2 k)"
  by (cases r) (simp_all add: bind_exc_def)

lemma ao_bind_io:
  assumes "meta_state w (fetch_request url hs pr) w1"
    and "\<And>e w2. meta_state w (fetch_request url hs pr) w2
           \<Longrightarrow> adapter_outcome w (fetch_request url hs pr) ok target h (Inl e, w2)"
    and "\<And>x w2. meta_state w (fetch_request url hs pr) w2
           \<Longrightarrow> adapter_outcome w (fetch_request url hs pr) ok target h (k x w2)"
  shows "adapter_outcome w (fetch_request url hs pr) ok target h
           (bind_io (retry_request env url 3 30 hs pr w1) k)"
proof -
  obtain r w2 where f: "retry_request env url 3 30 hs pr w1 = (r, w2)"
    by (cases "retry_request env url 3 30 hs pr w1") auto
  from retry_request_trace[OF f] obtain n where
    t: "saves w2 = saves w1" "requests w2 = requests w1 @ replicate n (fetch_request url hs pr)"
    by (auto simp: fetch_request_def)
  from assms(1) obtain n1 where
    "saves w1 = saves w" "requests w1 = requests w @ replicate n1 (fetch_request url hs pr)"
    by (auto simp: meta_state_def)
  with t have "saves w2 = saves w"
    "requests w2 = requests w @ replicate (n1 + n) (fetch_request url hs pr)"
    by (simp_all add: replicate_add)
  then have m: "meta_state w (fetch_request url hs pr) w2"
    unfolding meta_state_def by blast
  show ?thesis
    using assms(2)[OF m] assms(3)[OF m] f by (cases r) (simp_all add: bind_io_def)
qed

lemma ao_save:
  assumes "meta_state w meta w4" and "ok u"
  shows "adapter_outcome w meta ok target h (download_and_save env u target h w4)"
proof -
  obtain r w' where d: "download_and_save env u target h w4 = (r, w')"
    by (cases "download_and_save env u target h w4") auto
  from download_and_save_trace[OF d] obtain m where
    "saves w' = saves w4 @ [(u, target, h)]"
    "requests w' = requests w4 @ replicate m (fetch_request u h None)"
    by blast
  moreover from assms(1) obtain n where
    "saves w4 = saves w" "requests w4 = requests w @ replicate n meta"
    by (auto simp: meta_state_def)
  ultimately have "saves w' = saves w @ [(u, target, h)]"
    "requests w' = requests w @ replicate n meta @ replicate m (fetch_request u h None)"
    by simp_all
  with assms(2) show ?thesis
    unfolding d adapter_outcome_def by auto
qed

lemma download_bing_outcome:
  "adapter_outcome w bing_request is_nonempty_str target None (download_bing env target w)"
  unfolding download_bing_def Let_def bing_request_def
  by (intro ao_bind_io ao_bind_exc ao_if ao_err ao_save meta_state_log meta_state_refl)
     (simp_all add: is_nonempty_str_def)

lemma download_nasa_outcome:
  "adapter_outcome w (nasa_request api_key) py_truthy target None
     (download_nasa env target api_key w)"
  unfolding download_nasa_def Let_def nasa_request_def
  by (intro ao_bind_io ao_bind_exc ao_if ao_err ao_save meta_state_log meta_state_refl)
     simp_all

lemma download_wikipedia_outcome:
  "adapter_outcome w (wikipedia_request env) py_truthy target (Some wikipedia_headers)
     (download_wikipedia env target w)"
proof -
  obtain year month day where t: "today env = (year, month, day)"
    by (cases "today env") auto
  show ?thesis
    unfolding download_wikipedia_def Let_def wikipedia_request_def t prod.case
    by (intro ao_bind_io ao_bind_exc ao_if ao_err ao_save meta_state_log meta_state_refl)
       simp_all
qed

lemma download_unsplash_outcome:
  "adapter_outcome w (unsplash_request api_key topic query) py_truthy target None
     (download_unsplash env target api_key topic query w)"
proof (cases "api_key = ''''")
  case True
  then show ?thesis
    by (simp add: download_unsplash_def Let_def ao_err)
next
  case False
  define w1 where
    "w1 = log_verbose (''Fetching Unsplash photo''
            @ (case topic of
                 None \<Rightarrow> ''''
               | Some t \<Rightarrow> if t = '''' then '''' else '' (topic: '' @ t @ '')'')) w"
  define tp where
    "tp = (case topic of None \<Rightarrow> ([(''orientation'', ''landscape'')], w1)
           | Some t \<Rightarrow> if t = '''' then ([(''orientation'', ''landscape'')], w1)
                        else ([(''orientation'', ''landscape'')] @ [(''topics'', t)],
                              log_verbose (''Using topic: '' @ t) w1))"
  define qp where
    "qp = (case query of None \<Rightarrow> (fst tp, snd tp)
           | Some q \<Rightarrow> if q = '''' then (fst tp, snd tp)
                        else (fst tp @ [(''query'', q)], log_verbose (''Using query: '' @ q) (snd tp)))"
  define mr where "mr = unsplash_request api_key topic query"
  have w1: "meta_state w mr w1"
    by (simp add: w1_def)
  have tp: "meta_state w mr (snd tp)"
    using w1 by (cases topic) (simp_all add: tp_def)
  have qp: "meta_state w mr (snd qp)"
    using tp by (cases query) (simp_all add: qp_def)
  have ps: "fst qp = unsplash_params topic query"
    by (simp add: qp_def tp_def unsplash_params_def split: option.splits)
  have unf: "download_unsplash env target api_key topic query w =
     bind_io (retry_request env (PStr ''https://api.unsplash.com/photos/random'') 3 30
                (Some [(''Authorization'', ''Client-ID '' @ api_key)])
                (Some (unsplash_params topic query))
                (log_verbose (''Fetching from Unsplash API: ''
                                @ ''https://api.unsplash.com/photos/random'') (snd qp)))
       (\<lambda>resp w5.
          bind_exc (response_json resp) w5 (\<lambda>data.
          bind_exc (py_get data ''urls'' (PDict [])) w5 (\<lambda>urls.
          bind_exc (py_get urls ''full'' PNone) w5 (\<lambda>full.
          bind_exc (py_or full
                      (case py_get data ''urls'' (PDict []) of
                         Inl e \<Rightarrow> Inl e
                       | Inr urls' \<Rightarrow> py_get urls' ''regular'' PNone)) w5 (\<lambda>img_url.
          if \<not> py_truthy img_url then
            (Inl (PyException ''No image URL found in Unsplash response''), w5)
          else
          bind_exc (py_get data ''user'' (PDict [])) w5 (\<lambda>user.
          bind_exc (py_get user ''name'' (PStr ''Unknown'')) w5 (\<lambda>photographer.
          download_and_save env img_url target None
            (log_verbose (''Photo by: '' @ py_str env photographer) w5))))))))"
    using False
    by (simp add: download_unsplash_def Let_def ps[symmetric] qp_def tp_def w1_def
             split: option.splits cong del: if_weak_cong)
  show ?thesis
    unfolding unf unsplash_request_def
    using qp[unfolded mr_def unsplash_request_def]
    by (intro ao_bind_io ao_bind_exc ao_if ao_err ao_save meta_state_log)
       simp_all
qed

section \<open>Claims about the adapters\<close>

text \<open>
  C4, as stated: an adapter that does not fail calls the save step with a non-empty
  string. The NASA adapter tests its URL for truth only: an answer whose \<^verbatim>\<open>hdurl\<close> is
  the number 42 makes it call \<^verbatim>\<open>download_and_save(42, target)\<close>.
\<close>

theorem adapter_save_url_counterexample:
  "saves (snd (download_nasa (sample_env nasa_number_net) ''apod.jpg'' ''DEMO_KEY'' initial_world))
     = [(PInt 42, ''apod.jpg'', None)]
   \<and> \<not> is_nonempty_str (PInt 42)"
  by code_simp

text \<open>
  C4, amended: for every adapter and every answer of the server, the adapter either
  fails without calling the save step, or calls it exactly once, with a URL value that
  is present and not empty (true in Python's sense: never \<^verbatim>\<open>None\<close>, never the empty
  string); the Bing adapter always passes a non-empty string. The other adapters pass
  the value of the JSON field as it is, so a non-empty string whenever it is a string.
\<close>

theorem adapters_save_once_with_url:
  "((isl (fst (download_bing env target w))
       \<and> saves (snd (download_bing env target w)) = saves w)
     \<or> (\<exists>u h. is_nonempty_str u
           \<and> saves (snd (download_bing env target w)) = saves w @ [(u, target, h)]))
   \<and> ((isl (fst (download_nasa env target api_key w))
         \<and> saves (snd (download_nasa env target api_key w)) = saves w)
       \<or> (\<exists>u h. py_truthy u
             \<and> saves (snd (download_nasa env target api_key w)) = saves w @ [(u, target, h)]))
   \<and> ((isl (fst (download_wikipedia env target w))
         \<and> saves (snd (download_wikipedia env target w)) = saves w)
       \<or> (\<exists>u h. py_truthy u
             \<and> saves (snd (download_wikipedia env target w)) = saves w @ [(u, target, h)]))
   \<and> ((isl (fst (download_unsplash env target key topic query w))
         \<and> saves (snd (download_unsplash env target key topic query w)) = saves w)
       \<or> (\<exists>u h. py_truthy u
             \<and> saves (snd (download_unsplash env target key topic query w))
                 = saves w @ [(u, target, h)]))"
proof -
  have g: "\<And>meta ok h r. adapter_outcome w meta ok target h r \<Longrightarrow>
             (isl (fst r) \<and> saves (snd r) = saves w)
             \<or> (\<exists>u h. ok u \<and> saves (snd r) = saves w @ [(u, target, h)])"
    by (auto simp: adapter_outcome_def split: prod.splits)
  show ?thesis
    using g[OF download_bing_outcome[of w target env]]
      g[OF download_nasa_outcome[of w api_key target env]]
      g[OF download_wikipedia_outcome[of w env target]]
      g[OF download_unsplash_outcome[of w key topic query target env]]
    by blast
qed

text \<open>
  C9, as stated: every adapter's image download carries the headers of its metadata
  fetch. The Unsplash adapter sends its \<^verbatim>\<open>Authorization\<close> header on the metadata
  fetch and no headers on the image download.
\<close>

theorem image_headers_counterexample:
  "map req_headers
     (requests (snd (download_unsplash (sample_env (json_then_image_net unsplash_doc))
                       ''out.jpg'' ''KEY'' None None initial_world)))
     = [Some [(''Authorization'', ''Client-ID KEY'')], None]"
  by code_simp

text \<open>
  C9, amended: the image saver fetches the image with exactly the headers its caller
  passes. The requests of a run are the metadata request, repeated, then the image
  request, repeated. For Bing and NASA neither carries headers; for Wikipedia both
  carry the same \<^verbatim>\<open>User-Agent\<close> header; for Unsplash the metadata request carries the
  \<^verbatim>\<open>Authorization\<close> header and the image request carries none.
\<close>

theorem adapters_request_headers:
  "(\<exists>n m u. requests (snd (download_bing env target w))
              = requests w @ replicate n bing_request @ replicate m (fetch_request u None None))
   \<and> req_headers bing_request = None
   \<and> (\<exists>n m u. requests (snd (download_nasa env target api_key w))
              = requests w @ replicate n (nasa_request api_key)
                  @ replicate m (fetch_request u None None))
   \<and> req_headers (nasa_request api_key) = None
   \<and> (\<exists>n m u. requests (snd (download_wikipedia env target w))
              = requests w @ replicate n (wikipedia_request env)
                  @ replicate m (fetch_request u (Some wikipedia_headers) None))
   \<and> req_headers (wikipedia_request env) = Some wikipedia_headers
   \<and> (\<exists>n m u. requests (snd (download_unsplash env target key topic query w))
              = requests w @ replicate n (unsplash_request key topic query)
                  @ replicate m (fetch_request u None None))
   \<and> req_headers (unsplash_request key topic query)
       = Some [(''Authorization'', ''Client-ID '' @ key)]"
proof -
  have g: "\<And>meta ok h r. adapter_outcome w meta ok target h r \<Longrightarrow>
             \<exists>n m u. requests (snd r)
                       = requests w @ replicate n meta @ replicate m (fetch_request u h None)"
  proof -
    fix meta ok h r
    assume a: "adapter_outcome w meta ok target h r"
    obtain res w' where r: "r = (res, w')" by (cases r) auto
    from a[unfolded r adapter_outcome_def]
    consider n where "requests w' = requests w @ replicate n meta"
      | u n m where "requests w' = requests w @ replicate n meta
                                     @ replicate m (fetch_request u h None)"
      by auto
    then show "\<exists>n m u. requests (snd r)
                 = requests w @ replicate n meta @ replicate m (fetch_request u h None)"
    proof cases
      case 1
      then have "requests (snd r)
                   = requests w @ replicate n meta @ replicate 0 (fetch_request PNone h None)"
        by (simp add: r)
      then show ?thesis by blast
    next
      case 2
      then show ?thesis unfolding r snd_conv by blast
    qed
  qed
  have w: "req_headers (wikipedia_request env) = Some wikipedia_headers"
    by (cases "today env") (simp add: wikipedia_request_def fetch_request_def)
  show ?thesis
    using g[OF download_bing_outcome[of w target env]]
      g[OF download_nasa_outcome[of w api_key target env]]
      g[OF download_wikipedia_outcome[of w env target]]
      g[OF download_unsplash_outcome[of w key topic query target env]] w
    by (simp add: bing_request_def nasa_request_def unsplash_request_def fetch_request_def)
qed

section \<open>Claims about the NASA adapter, the saver and the command line\<close>

lemma py_str_PStr [simp]: "py_str env (PStr s) = s"
  by (simp add: py_str_def)

lemma detect_extension_in_suffixes:
  "detect_extension env url content_type = Inr ext \<Longrightarrow> ext \<in> set image_suffixes"
  by (auto simp: detect_extension_def Let_def image_suffixes_def
           split: sum.splits option.splits if_splits)



text \<open>
  A successful \<^verbatim>\<open>download_and_save\<close>, step by step: the fetch returned, the target
  kept or received its suffix, both file-system operations succeeded.
\<close>

lemma download_and_save_success_shape:
  assumes "download_and_save env url target_path headers w = (Inr v, w')"
  shows "\<exists>resp w2 t w3.
           retry_request env url 3 30 headers None
             (log_verbose (''Downloading image from '' @ py_str env url)
                (w\<lparr>saves := saves w @ [(url, target_path, headers)]\<rparr>)) = (Inr resp, w2)
           \<and> (if path_suffix (Path target_path) = ''''
                  \<or> py_lower (path_suffix (Path target_path)) \<notin> set image_suffixes
               then \<exists>s ext. url = PStr s
                      \<and> detect_extension env s
                          (Some (header_get (resp_headers resp) ''Content-Type'' '''')) = Inr ext
                      \<and> with_suffix (Path target_path) ext = Inr t
                      \<and> w3 = log_verbose (''Auto-detected extension: '' @ ext) w2
               else t = Path target_path \<and> w3 = w2)
           \<and> v = PNone
           \<and> w' = print (''Successfully downloaded to: '' @ path_str t)
                    ((log_verbose (''Saving image to '' @ path_str t)
                        (w3\<lparr>mkdirs := mkdirs w3 @ [path_str (path_parent t)]\<rparr>))
                       \<lparr>writes := writes w3 @ [(path_str t, content resp)]\<rparr>)"
proof -
  let ?w1 = "log_verbose (''Downloading image from '' @ py_str env url)
               (w\<lparr>saves := saves w @ [(url, target_path, headers)]\<rparr>)"
  obtain rr w2 where f: "retry_request env url 3 30 headers None ?w1 = (rr, w2)"
    by (cases "retry_request env url 3 30 headers None ?w1") auto
  from assms f obtain resp where rr: "rr = Inr resp"
    by (cases rr) (auto simp: download_and_save_def Let_def)
  show ?thesis
  proof (cases "path_suffix (Path target_path) = ''''
                  \<or> py_lower (path_suffix (Path target_path)) \<notin> set image_suffixes")
    case True
    from assms f rr True obtain s where s: "url = PStr s"
      by (cases url) (auto simp: download_and_save_def Let_def)
    from assms f rr True s obtain ext where
      ext: "detect_extension env s (Some (header_get (resp_headers resp) ''Content-Type'' ''''))
              = Inr ext"
      by (cases "detect_extension env s (Some (header_get (resp_headers resp) ''Content-Type'' ''''))")
         (auto simp: download_and_save_def Let_def)
    from assms f rr True s ext obtain t where t: "with_suffix (Path target_path) ext = Inr t"
      by (cases "with_suffix (Path target_path) ext") (auto simp: download_and_save_def Let_def)
    from assms f rr True s ext t
    have "v = PNone \<and> w' = print (''Successfully downloaded to: '' @ path_str t)
            ((log_verbose (''Saving image to '' @ path_str t)
                ((log_verbose (''Auto-detected extension: '' @ ext) w2)
                   \<lparr>mkdirs := mkdirs (log_verbose (''Auto-detected extension: '' @ ext) w2)
                                @ [path_str (path_parent t)]\<rparr>))
               \<lparr>writes := writes (log_verbose (''Auto-detected extension: '' @ ext) w2)
                            @ [(path_str t, content resp)]\<rparr>)"
      by (auto simp: download_and_save_def Let_def split: option.splits)
    with f rr True s ext t show ?thesis by auto
  next
    case False
    from assms f rr False
    have "v = PNone \<and> w' = print (''Successfully downloaded to: '' @ path_str (Path target_path))
            ((log_verbose (''Saving image to '' @ path_str (Path target_path))
                (w2\<lparr>mkdirs := mkdirs w2 @ [path_str (path_parent (Path target_path))]\<rparr>))
               \<lparr>writes := writes w2 @ [(path_str (Path target_path), content resp)]\<rparr>)"
      by (auto simp: download_and_save_def Let_def split: option.splits)
    with f rr False show ?thesis by auto
  qed
qed

text \<open>
  C6, as stated: on success the saver returns the final path. The function has no
  \<^verbatim>\<open>return\<close> statement: it writes \<^verbatim>\<open>photo.png\<close>, prints the line naming it and
  returns \<^verbatim>\<open>None\<close>.
\<close>

theorem download_and_save_returns_path_counterexample:
  "fst (download_and_save (sample_env image_net) (PStr ''https://example.com/pic'') ''photo''
          None initial_world) = Inr PNone
   \<and> writes (snd (download_and_save (sample_env image_net) (PStr ''https://example.com/pic'')
                     ''photo'' None initial_world)) = [(''photo.png'', ''PNGDATA'')]
   \<and> stdout (snd (download_and_save (sample_env image_net) (PStr ''https://example.com/pic'')
                     ''photo'' None initial_world)) = [''Successfully downloaded to: photo.png'']
   \<and> PNone \<noteq> PStr ''photo.png''"
  by code_simp

text \<open>
  C6, amended: on success the saver returns \<^verbatim>\<open>None\<close>; it has written the body of
  the response it fetched to one file, at the final path (the target path, or, when that
  had no recognised suffix, the target path with the suffix that \<^verbatim>\<open>detect_extension\<close>
  gives for the URL and the fetched content type), and the last line it printed is the
  success line naming that path.
\<close>

theorem download_and_save_success:
  assumes "download_and_save env url target_path headers w = (Inr v, w')"
  shows "v = PNone
       \<and> (\<exists>resp w2 p.
             retry_request env url 3 30 headers None
               (log_verbose (''Downloading image from '' @ py_str env url)
                  (w\<lparr>saves := saves w @ [(url, target_path, headers)]\<rparr>)) = (Inr resp, w2)
             \<and> writes w' = writes w @ [(p, content resp)]
             \<and> stdout w' \<noteq> []
             \<and> last (stdout w') = ''Successfully downloaded to: '' @ p
             \<and> (if path_suffix (Path target_path) = ''''
                    \<or> py_lower (path_suffix (Path target_path)) \<notin> set image_suffixes
                 then \<exists>s ext t.
                        url = PStr s
                        \<and> detect_extension env s
                            (Some (header_get (resp_headers resp) ''Content-Type'' '''')) = Inr ext
                        \<and> with_suffix (Path target_path) ext = Inr t \<and> p = path_str t
                 else p = path_str (Path target_path)))"
proof -
  from download_and_save_success_shape[OF assms] obtain resp w2 t w3 where
    f: "retry_request env url 3 30 headers None
          (log_verbose (''Downloading image from '' @ py_str env url)
             (w\<lparr>saves := saves w @ [(url, target_path, headers)]\<rparr>)) = (Inr resp, w2)"
    and c: "if path_suffix (Path target_path) = ''''
               \<or> py_lower (path_suffix (Path target_path)) \<notin> set image_suffixes
            then \<exists>s ext. url = PStr s
                   \<and> detect_extension env s
                       (Some (header_get (resp_headers resp) ''Content-Type'' '''')) = Inr ext
                   \<and> with_suffix (Path target_path) ext = Inr t
                   \<and> w3 = log_verbose (''Auto-detected extension: '' @ ext) w2
            else t = Path target_path \<and> w3 = w2"
    and v: "v = PNone"
    and w': "w' = print (''Successfully downloaded to: '' @ path_str t)
                    ((log_verbose (''Saving image to '' @ path_str t)
                        (w3\<lparr>mkdirs := mkdirs w3 @ [path_str (path_parent t)]\<rparr>))
                       \<lparr>writes := writes w3 @ [(path_str t, content resp)]\<rparr>)"
    by blast
  from retry_request_trace[OF f] have "writes w2 = writes w" by simp
  moreover from c have "writes w3 = writes w2" by (auto split: if_splits)
  ultimately have wr: "writes w' = writes w @ [(path_str t, content resp)]"
    by (simp add: w' print_def)
  have out: "stdout w' \<noteq> []" "last (stdout w') = ''Successfully downloaded to: '' @ path_str t"
    by (simp_all add: w' print_def)
  have p: "if path_suffix (Path target_path) = ''''
              \<or> py_lower (path_suffix (Path target_path)) \<notin> set image_suffixes
           then \<exists>s ext t'.
                  url = PStr s
                  \<and> detect_extension env s
                      (Some (header_get (resp_headers resp) ''Content-Type'' '''')) = Inr ext
                  \<and> with_suffix (Path target_path) ext = Inr t' \<and> path_str t = path_str t'
           else path_str t = path_str (Path target_path)"
    using c by (auto split: if_splits)
  have "retry_request env url 3 30 headers None
          (log_verbose (''Downloading image from '' @ py_str env url)
             (w\<lparr>saves := saves w @ [(url, target_path, headers)]\<rparr>)) = (Inr resp, w2)
          \<and> writes w' = writes w @ [(path_str t, content resp)]
          \<and> stdout w' \<noteq> []
          \<and> last (stdout w') = ''Successfully downloaded to: '' @ path_str t
          \<and> (if path_suffix (Path target_path) = ''''
                 \<or> py_lower (path_suffix (Path target_path)) \<notin> set image_suffixes
              then \<exists>s ext t'.
                     url = PStr s
                     \<and> detect_extension env s
                         (Some (header_get (resp_headers resp) ''Content-Type'' '''')) = Inr ext
                     \<and> with_suffix (Path target_path) ext = Inr t' \<and> path_str t = path_str t'
              else path_str t = path_str (Path target_path))"
    using f wr out p by (intro conjI)
  then have "\<exists>resp w2 p.
          retry_request env url 3 30 headers None
            (log_verbose (''Downloading image from '' @ py_str env url)
               (w\<lparr>saves := saves w @ [(url, target_path, headers)]\<rparr>)) = (Inr resp, w2)
          \<and> writes w' = writes w @ [(p, content resp)]
          \<and> stdout w' \<noteq> []
          \<and> last (stdout w') = ''Successfully downloaded to: '' @ p
          \<and> (if path_suffix (Path target_path) = ''''
                 \<or> py_lower (path_suffix (Path target_path)) \<notin> set image_suffixes
              then \<exists>s ext t'.
                     url = PStr s
                     \<and> detect_extension env s
                         (Some (header_get (resp_headers resp) ''Content-Type'' '''')) = Inr ext
                     \<and> with_suffix (Path target_path) ext = Inr t' \<and> p = path_str t'
              else p = path_str (Path target_path))"
    by (intro exI[of _ resp] exI[of _ w2] exI[of _ "path_str t"])
  with v show ?thesis by (intro conjI)
qed

theorem download_and_save_success_witness:
  "fst (download_and_save (sample_env image_net) (PStr ''https://example.com/pic'') ''photo''
          None initial_world) = Inr PNone
   \<and> writes (snd (download_and_save (sample_env image_net) (PStr ''https://example.com/pic'')
                     ''photo'' None initial_world)) = [(''photo.png'', ''PNGDATA'')]
   \<and> last (stdout (snd (download_and_save (sample_env image_net)
                           (PStr ''https://example.com/pic'') ''photo'' None initial_world)))
       = ''Successfully downloaded to: photo.png''"
proof -
  let ?run = "download_and_save (sample_env image_net) (PStr ''https://example.com/pic'')
                ''photo'' None initial_world"
  have run: "?run = (Inr PNone, snd ?run)"
    by code_simp
  have fetch: "retry_request (sample_env image_net) (PStr ''https://example.com/pic'') 3 30 None None
                 (log_verbose (''Downloading image from ''
                                 @ py_str (sample_env image_net) (PStr ''https://example.com/pic''))
                    (initial_world\<lparr>saves := saves initial_world
                        @ [(PStr ''https://example.com/pic'', ''photo'', None)]\<rparr>))
               = (Inr (ok_response ''image/png'' ''PNGDATA'' None),
                  initial_world\<lparr>saves := [(PStr ''https://example.com/pic'', ''photo'', None)],
                                  requests := [fetch_request (PStr ''https://example.com/pic'')
                                                 None None]\<rparr>)"
    by code_simp
  have suf: "path_suffix (Path ''photo'') = ''''" by code_simp
  have ext: "detect_extension (sample_env image_net) ''https://example.com/pic''
               (Some (header_get (resp_headers (ok_response ''image/png'' ''PNGDATA'' None))
                        ''Content-Type'' '''')) = Inr ''.png''"
    by code_simp
  have ws: "with_suffix (Path ''photo'') ''.png'' = Inr \<lparr>p_root = '''', p_names = [''photo.png'']\<rparr>"
    by code_simp
  have ps: "path_str \<lparr>p_root = '''', p_names = [''photo.png'']\<rparr> = ''photo.png''"
    by code_simp
  from download_and_save_success[OF run] obtain resp w2 p where
    f: "retry_request (sample_env image_net) (PStr ''https://example.com/pic'') 3 30 None None
              (log_verbose (''Downloading image from ''
                              @ py_str (sample_env image_net) (PStr ''https://example.com/pic''))
                 (initial_world\<lparr>saves := saves initial_world
                     @ [(PStr ''https://example.com/pic'', ''photo'', None)]\<rparr>)) = (Inr resp, w2)"
    and wr: "writes (snd ?run) = writes initial_world @ [(p, content resp)]"
    and out: "last (stdout (snd ?run)) = ''Successfully downloaded to: '' @ p"
    and c: "if path_suffix (Path ''photo'') = ''''
               \<or> py_lower (path_suffix (Path ''photo'')) \<notin> set image_suffixes
            then \<exists>s ext t.
                   PStr ''https://example.com/pic'' = PStr s
                   \<and> detect_extension (sample_env image_net) s
                       (Some (header_get (resp_headers resp) ''Content-Type'' '''')) = Inr ext
                   \<and> with_suffix (Path ''photo'') ext = Inr t \<and> p = path_str t
            else p = path_str (Path ''photo'')"
    by blast
  from f fetch have r: "resp = ok_response ''image/png'' ''PNGDATA'' None" by simp
  from c suf r ext ws ps have p: "p = ''photo.png''" by auto
  have res: "fst ?run = Inr PNone"
    using run by (metis fst_conv)
  from res wr out p r show ?thesis
    by (simp add: initial_world_def ok_response_def)
qed

text \<open>
  C7, as stated: with target \<^verbatim>\<open>photo\<close> and content type \<^verbatim>\<open>image/png\<close> the written
  path ends in \<^verbatim>\<open>.png\<close> for every image URL. A URL whose path ends in \<^verbatim>\<open>.jpg\<close> gives
  \<^verbatim>\<open>photo.jpg\<close>: the extension of the URL wins over the content type.
\<close>

theorem download_and_save_photo_counterexample:
  "header_get (resp_headers (ok_response ''image/png'' ''PNGDATA'' None)) ''Content-Type'' ''''
     = ''image/png''
   \<and> writes (snd (download_and_save (sample_env image_net) (PStr ''https://example.com/a.jpg'')
                     ''photo'' None initial_world)) = [(''photo.jpg'', ''PNGDATA'')]"
  by code_simp

text \<open>
  C7, amended: given target \<^verbatim>\<open>photo\<close>, a fetched content type of \<^verbatim>\<open>image/png\<close> and a
  file system that does not fail, the saver succeeds and writes \<^verbatim>\<open>photo\<close> plus an
  extension: \<^verbatim>\<open>.png\<close> for every URL whose path carries no recognised extension, and
  the lower-cased extension of the URL path when it is a recognised one.
\<close>

theorem download_and_save_photo_png:
  assumes "retry_request env (PStr url) 3 30 headers None
             (log_verbose (''Downloading image from '' @ url)
                (w\<lparr>saves := saves w @ [(PStr url, ''photo'', headers)]\<rparr>)) = (Inr resp, w2)"
    and "header_get (resp_headers resp) ''Content-Type'' '''' = ''image/png''"
    and "urlparse_path env url = Inr path"
    and "\<forall>op. fs env op = None"
  shows "\<exists>ext w'. download_and_save env (PStr url) ''photo'' headers w = (Inr PNone, w')
           \<and> writes w' = writes w @ [(''photo'' @ ext, content resp)]
           \<and> last (stdout w') = ''Successfully downloaded to: photo'' @ ext
           \<and> ext = (if CHR ''.'' \<in> set path \<and> py_lower (splitext_ext path) \<in> set image_suffixes
                    then py_lower (splitext_ext path) else ''.png'')"
proof -
  define ext where
    "ext = (if CHR ''.'' \<in> set path \<and> py_lower (splitext_ext path) \<in> set image_suffixes
            then py_lower (splitext_ext path) else ''.png'')"
  have ct: "py_lower ''image/png'' = ''image/png''"
    "\<not> is_substring ''jpeg'' ''image/png''" "\<not> is_substring ''jpg'' ''image/png''"
    "is_substring ''png'' ''image/png''"
    by code_simp+
  have de: "detect_extension env url (Some ''image/png'') = Inr ext"
    using assms(3) by (simp add: detect_extension_def ext_def ct Let_def)
  have mem: "ext \<in> set image_suffixes"
    by (rule detect_extension_in_suffixes[OF de])
  have P: "Path ''photo'' = \<lparr>p_root = '''', p_names = [''photo'']\<rparr>" by code_simp
  have suf: "path_suffix \<lparr>p_root = '''', p_names = [''photo'']\<rparr> = ''''" by code_simp
  define nm where "nm = ''photo'' @ ext"
  have ws: "with_suffix \<lparr>p_root = '''', p_names = [''photo'']\<rparr> ext
              = Inr \<lparr>p_root = '''', p_names = [nm]\<rparr>"
    using mem unfolding image_suffixes_def nm_def
    by (auto simp: with_suffix_def suf path_name_def Let_def)
  have ne: "nm \<noteq> []" by (simp add: nm_def)
  have ps: "path_str \<lparr>p_root = '''', p_names = [nm]\<rparr> = nm"
    using ne by (simp add: path_str_def)
  have pp: "path_str (path_parent \<lparr>p_root = '''', p_names = [nm]\<rparr>) = ''.''"
    by (simp add: path_parent_def path_str_def)
  from retry_request_trace[OF assms(1)] have wr: "writes w2 = writes w" by simp
  define w' where
    "w' = print (''Successfully downloaded to: '' @ nm)
            ((log_verbose (''Saving image to '' @ nm)
                ((log_verbose (''Auto-detected extension: '' @ ext) w2)
                   \<lparr>mkdirs := mkdirs w2 @ [''.'']\<rparr>))
               \<lparr>writes := writes w2 @ [(nm, content resp)]\<rparr>)"
  have run: "download_and_save env (PStr url) ''photo'' headers w = (Inr PNone, w')"
    using assms(1,2,4)
    by (simp add: download_and_save_def Let_def P suf de ws ps pp w'_def)
  have "writes w' = writes w @ [(''photo'' @ ext, content resp)]"
    "last (stdout w') = ''Successfully downloaded to: photo'' @ ext"
    by (simp_all add: w'_def print_def wr nm_def)
  with run ext_def show ?thesis by blast
qed

theorem download_and_save_photo_png_witness:
  "\<exists>w'. download_and_save (sample_env image_net) (PStr ''https://example.com/pic'') ''photo''
           None initial_world = (Inr PNone, w')
       \<and> writes w' = [(''photo.png'', ''PNGDATA'')]
       \<and> last (stdout w') = ''Successfully downloaded to: photo.png''"
proof -
  have h1: "retry_request (sample_env image_net) (PStr ''https://example.com/pic'') 3 30 None None
              (log_verbose (''Downloading image from '' @ ''https://example.com/pic'')
                 (initial_world\<lparr>saves := saves initial_world
                     @ [(PStr ''https://example.com/pic'', ''photo'', None)]\<rparr>))
            = (Inr (ok_response ''image/png'' ''PNGDATA'' None),
               initial_world\<lparr>saves := [(PStr ''https://example.com/pic'', ''photo'', None)],
                               requests := [fetch_request (PStr ''https://example.com/pic'') None None]\<rparr>)"
    by code_simp
  have h2: "header_get (resp_headers (ok_response ''image/png'' ''PNGDATA'' None))
              ''Content-Type'' '''' = ''image/png''"
    by code_simp
  have h3: "urlparse_path (sample_env image_net) ''https://example.com/pic'' = Inr ''/pic''"
    by code_simp
  have h4: "\<forall>op. fs (sample_env image_net) op = None"
    by (simp add: sample_env_def)
  from download_and_save_photo_png[OF h1 h2 h3 h4]
  show ?thesis by (simp add: initial_world_def ok_response_def)
qed

text \<open>
  C8. With source \<^verbatim>\<open>unsplash\<close> and no \<^verbatim>\<open>--unsplash-api-key\<close>, \<^verbatim>\<open>main\<close> exits with
  code 1 after printing the two lines of the missing-key message on the error stream;
  no request has been issued and nothing else has happened.
\<close>

theorem main_unsplash_without_key:
  "main env (a\<lparr>arg_source := Unsplash, arg_unsplash_api_key := None\<rparr>) w
     = (1, w\<lparr>VERBOSE := arg_verbose a,
              stderr := stderr w @ [''Error: --unsplash-api-key is required for Unsplash source'',
                                    ''Get a free API key at: https://unsplash.com/developers'']\<rparr>)
   \<and> requests (snd (main env (a\<lparr>arg_source := Unsplash, arg_unsplash_api_key := None\<rparr>) w))
       = requests w"
  by (simp add: main_def dispatch_def print_err_def)

end
